theory Spec2Isabelle
  imports Main "HOL-Library.Multiset"
begin

section \<open>Build pipeline: required dependencies and the content hash\<close>

subsection \<open>JavaScript values used by the build pipeline\<close>

text \<open>
  A \<open>Record<string, string>\<close> that the code builds and enumerates (the gathered
  \<open>dependencies\<close>) is the list of its own entries in enumeration order, with distinct
  keys. A record that is only read by key (the \<open>dependencies\<close> of a package.json) is
  given by the map of its own properties. Strings are byte strings.
\<close>

type_synonym Record = "(string \<times> string) list"

text \<open>\<open>v ? a : b\<close> on a \<open>string | undefined\<close>: undefined and the empty string are falsy.\<close>

fun truthy :: "string option \<Rightarrow> bool" where
  "truthy None = False"
| "truthy (Some v) = (v \<noteq> [])"

text \<open>\<open>if (b)\<close> on a \<open>boolean | undefined\<close>.\<close>

fun truthy_bool :: "bool option \<Rightarrow> bool" where
  "truthy_bool None = False"
| "truthy_bool (Some b) = b"

text \<open>An entry of esbuild's \<open>Metafile["outputs"][string]["imports"]\<close>.\<close>

record Import =
  imp_path :: string
  imp_kind :: string
  imp_external :: "bool option"

subsection \<open>Plain objects\<close>

text \<open>
  The objects that the code uses as maps (\<open>dependencies\<close>, the \<open>dependencies\<close> of a
  package.json, the \<open>variables\<close> of the API response) are plain objects: reading a name
  that is not an own property finds what \<open>Object.prototype\<close> gives every object, a
  function under eleven names and the prototype itself under \<open>__proto__\<close>. All of these
  are truthy and none is undefined.
\<close>

definition objectPrototypeNames :: "string list" where
  "objectPrototypeNames =
     [''constructor'', ''__defineGetter__'', ''__defineSetter__'', ''hasOwnProperty'',
      ''__lookupGetter__'', ''__lookupSetter__'', ''isPrototypeOf'', ''propertyIsEnumerable'',
      ''toString'', ''valueOf'', ''__proto__'', ''toLocaleString'']"

datatype property = Undefined | Own string | Inherited

text \<open>\<open>obj[name]\<close> on a plain object with the given own properties.\<close>

definition getProperty :: "(string \<rightharpoonup> string) \<Rightarrow> string \<Rightarrow> property" where
  "getProperty own name =
     (case own name of
        Some v \<Rightarrow> Own v
      | None \<Rightarrow> if name \<in> set objectPrototypeNames then Inherited else Undefined)"

text \<open>\<open>if (obj[name])\<close>: undefined and the empty string are falsy.\<close>

fun truthy_property :: "property \<Rightarrow> bool" where
  "truthy_property Undefined = False"
| "truthy_property (Own v) = (v \<noteq> [])"
| "truthy_property Inherited = True"

text \<open>
  An array index is the canonical decimal numeral of an integer below \<open>2^32 - 1\<close>. The
  own properties of an object are enumerated with the array indices first, in ascending
  order, and the other names after them in the order of their creation.
\<close>

definition isDigit :: "char \<Rightarrow> bool" where
  "isDigit c = (48 \<le> (of_char c :: nat) \<and> (of_char c :: nat) \<le> 57)"

definition digitsValue :: "string \<Rightarrow> int" where
  "digitsValue s = foldl (\<lambda>n c. 10 * n + (of_char c - 48)) 0 s"

definition arrayIndex :: "string \<Rightarrow> int option" where
  "arrayIndex s =
     (if s \<noteq> [] \<and> list_all isDigit s \<and> (length s = 1 \<or> hd s \<noteq> CHR ''0'') \<and>
         digitsValue s < 4294967295
      then Some (digitsValue s) else None)"

text \<open>
  \<open>obj[name] = v\<close> for a name that is not yet an own property: the new entry takes its
  place in the enumeration order.
\<close>

fun defineProperty :: "Record \<Rightarrow> string \<Rightarrow> string \<Rightarrow> Record" where
  "defineProperty [] name v = [(name, v)]"
| "defineProperty ((name', v') # rest) name v =
     (case arrayIndex name of
        None \<Rightarrow> (name', v') # defineProperty rest name v
      | Some i \<Rightarrow>
          (case arrayIndex name' of
             None \<Rightarrow> (name, v) # (name', v') # rest
           | Some j \<Rightarrow>
               if j < i then (name', v') # defineProperty rest name v
               else (name, v) # (name', v') # rest))"

subsection \<open>gatherRequiredDependencies\<close>

text \<open>
  The body of the loop of \<open>gatherRequiredDependencies\<close> over \<open>imports\<close>: it takes
  the object \<open>dependencies\<close> built so far and returns it after this iteration (a
  \<open>continue\<close> returns it unchanged). \<open>detectPackageNameFromImportPath\<close> (imported from
  \<open>../utilities/installPackages\<close>) and the own properties of the CLI's
  \<open>packageJson.dependencies\<close> are parameters; \<open>externalPackageJson\<close> is given by the own
  properties of its \<open>dependencies\<close>. The two assignments are reached only after
  \<open>dependencies[packageName]\<close> was falsy, that is with a name that \<open>Object.prototype\<close>
  does not have, so the version assigned is an own string (lemma
  \<open>gatherStep_assigns_own\<close> below); the case of an inherited value is there for
  totality and leaves the object as it is.
\<close>

fun assign :: "Record \<Rightarrow> string \<Rightarrow> property \<Rightarrow> Record" where
  "assign dependencies name (Own v) = defineProperty dependencies name v"
| "assign dependencies name Inherited = dependencies"
| "assign dependencies name Undefined = dependencies"

definition gatherStep ::
  "(string \<Rightarrow> string) \<Rightarrow> (string \<rightharpoonup> string) \<Rightarrow> (string \<rightharpoonup> string) option \<Rightarrow>
   Record \<Rightarrow> Import \<Rightarrow> Record" where
  "gatherStep detectPackageNameFromImportPath packageJson_dependencies externalPackageJson
     dependencies file =
     (if imp_kind file \<noteq> ''require-call'' \<or> \<not> truthy_bool (imp_external file) then dependencies
      else
        let packageName = detectPackageNameFromImportPath (imp_path file) in
        if truthy_property (getProperty (map_of dependencies) packageName) then dependencies
        else
          let externalDependencyVersion =
                getProperty (case externalPackageJson of None \<Rightarrow> Map.empty | Some d \<Rightarrow> d)
                  packageName in
          if truthy_property externalDependencyVersion then
            assign dependencies packageName externalDependencyVersion
          else
            let internalDependencyVersion = getProperty packageJson_dependencies packageName in
            if truthy_property internalDependencyVersion then
              assign dependencies packageName internalDependencyVersion
            else dependencies)"

definition gatherRequiredDependencies ::
  "(string \<Rightarrow> string) \<Rightarrow> (string \<rightharpoonup> string) \<Rightarrow> Import list \<Rightarrow>
   (string \<rightharpoonup> string) option \<Rightarrow> Record" where
  "gatherRequiredDependencies detectPackageNameFromImportPath packageJson_dependencies
     imports externalPackageJson =
     foldl (gatherStep detectPackageNameFromImportPath packageJson_dependencies
              externalPackageJson) [] imports"

text \<open>
  The version the loop body resolves for a package name that \<open>Object.prototype\<close> does
  not have: the project's own declared version when it is a non-empty string, otherwise
  the CLI's when that is a non-empty string, otherwise none.
\<close>

definition resolveVersion ::
  "(string \<rightharpoonup> string) \<Rightarrow> (string \<rightharpoonup> string) option \<Rightarrow> string \<Rightarrow> string option" where
  "resolveVersion packageJson_dependencies externalPackageJson packageName =
     (let externalDependencyVersion =
            (case externalPackageJson of None \<Rightarrow> Map.empty | Some d \<Rightarrow> d) packageName in
      if truthy externalDependencyVersion then externalDependencyVersion
      else
        let internalDependencyVersion = packageJson_dependencies packageName in
        if truthy internalDependencyVersion then internalDependencyVersion else None)"

text \<open>The package names of the external require-call imports.\<close>

definition requiredPackages :: "(string \<Rightarrow> string) \<Rightarrow> Import list \<Rightarrow> string set" where
  "requiredPackages detectPackageNameFromImportPath imports =
     detectPackageNameFromImportPath ` imp_path `
       {file \<in> set imports. imp_kind file = ''require-call'' \<and> truthy_bool (imp_external file)}"

subsection \<open>The content hash computed by compileProject\<close>

text \<open>
  What the JavaScript runtime and Node provide, as parameters: the SHA-256 digest in hex,
  \<open>Object.fromEntries\<close>, \<open>JSON.stringify\<close> and \<open>String.prototype.localeCompare\<close>.
\<close>

record runtime =
  sha256_hex :: "string \<Rightarrow> string"
  Object_fromEntries :: "(string \<times> string) list \<Rightarrow> Record"
  JSON_stringify :: "Record \<Rightarrow> string"
  localeCompare :: "string \<Rightarrow> string \<Rightarrow> int"

text \<open>
  \<open>createHash("sha256")\<close>, \<open>update\<close> and \<open>digest("hex")\<close>: the hasher holds the bytes
  fed so far, and the digest is the hash of their concatenation. \<open>Buffer.from\<close> of a
  string is its bytes.
\<close>

definition createHash :: string where
  "createHash = []"

definition update :: "string \<Rightarrow> string \<Rightarrow> string" where
  "update hasher bytes = hasher @ bytes"

definition digest :: "runtime \<Rightarrow> string \<Rightarrow> string" where
  "digest rt hasher = sha256_hex rt hasher"

definition Buffer_from :: "string \<Rightarrow> string" where
  "Buffer_from text = text"

definition Object_entries :: "Record \<Rightarrow> (string \<times> string) list" where
  "Object_entries obj = obj"

text \<open>
  \<open>Array.prototype.sort(compareFn)\<close>: a stable sort. An element goes before the first
  one it does not compare greater than, so elements that compare equal keep their order.
\<close>

fun insort_by :: "('a \<Rightarrow> 'a \<Rightarrow> int) \<Rightarrow> 'a \<Rightarrow> 'a list \<Rightarrow> 'a list" where
  "insort_by compareFn x [] = [x]"
| "insort_by compareFn x (y # ys) =
     (if compareFn x y \<le> 0 then x # y # ys else y # insort_by compareFn x ys)"

definition sort_by :: "('a \<Rightarrow> 'a \<Rightarrow> int) \<Rightarrow> 'a list \<Rightarrow> 'a list" where
  "sort_by compareFn xs = foldr (insort_by compareFn) xs []"

text \<open>
  The hashing block of \<open>compileProject\<close>: the entry point's text, the worker's text and
  the JSON of the dependencies sorted by key with \<open>localeCompare\<close> are fed to the hasher
  in this order.
\<close>

definition compileProject_contentHash :: "runtime \<Rightarrow> string \<Rightarrow> string \<Rightarrow> Record \<Rightarrow> string" where
  "compileProject_contentHash rt entryPointOutputFile_text workerOutputFile_text dependencies =
     (let contentHasher = createHash;
          contentHasher = update contentHasher (Buffer_from entryPointOutputFile_text);
          contentHasher = update contentHasher (Buffer_from workerOutputFile_text);
          sortedDependencies =
            Object_fromEntries rt
              (sort_by (\<lambda>(a, _) (b, _). localeCompare rt a b) (Object_entries dependencies));
          contentHasher = update contentHasher (Buffer_from (JSON_stringify rt sortedDependencies))
      in digest rt contentHasher)"

text \<open>
  A comparator is a total order on a set of keys when a key compares equal to itself,
  distinct keys never compare equal, the two directions of a comparison agree, and it is
  transitive.
\<close>

definition strictTotalOn :: "string set \<Rightarrow> (string \<Rightarrow> string \<Rightarrow> int) \<Rightarrow> bool" where
  "strictTotalOn K c =
     ((\<forall>a\<in>K. c a a = 0) \<and>
      (\<forall>a\<in>K. \<forall>b\<in>K. a \<noteq> b \<longrightarrow> c a b \<noteq> 0 \<and> (c a b < 0 \<longleftrightarrow> 0 < c b a)) \<and>
      (\<forall>a\<in>K. \<forall>b\<in>K. \<forall>d\<in>K. c a b \<le> 0 \<longrightarrow> c b d \<le> 0 \<longrightarrow> c a d \<le> 0))"

text \<open>Comparison of strings by code unit, one comparator that is such an order.\<close>

fun codeUnitCompare :: "string \<Rightarrow> string \<Rightarrow> int" where
  "codeUnitCompare [] [] = 0"
| "codeUnitCompare [] (y # ys) = -1"
| "codeUnitCompare (x # xs) [] = 1"
| "codeUnitCompare (x # xs) (y # ys) =
     (if (of_char x :: nat) < of_char y then -1
      else if (of_char y :: nat) < of_char x then 1
      else codeUnitCompare xs ys)"

text \<open>
  The invariant of the loop of \<open>gatherRequiredDependencies\<close>: keys are distinct, no
  stored version is the empty string, and no key is a name of \<open>Object.prototype\<close>.
\<close>

definition depsInv :: "Record \<Rightarrow> bool" where
  "depsInv dependencies =
     (distinct (map fst dependencies) \<and> [] \<notin> snd ` set dependencies \<and>
      fst ` set dependencies \<inter> set objectPrototypeNames = {})"

text \<open>A comparator that is total and transitive on a set.\<close>

definition orderedOn :: "'a set \<Rightarrow> ('a \<Rightarrow> 'a \<Rightarrow> int) \<Rightarrow> bool" where
  "orderedOn A c =
     ((\<forall>x\<in>A. \<forall>y\<in>A. c x y \<le> 0 \<or> c y x \<le> 0) \<and>
      (\<forall>x\<in>A. \<forall>y\<in>A. \<forall>z\<in>A. c x y \<le> 0 \<longrightarrow> c y z \<le> 0 \<longrightarrow> c x z \<le> 0))"


text \<open>A concrete runtime and concrete imports, for evaluating the definitions.\<close>

definition exampleRuntime :: runtime where
  "exampleRuntime =
     \<lparr>sha256_hex = (\<lambda>bytes. bytes), Object_fromEntries = (\<lambda>es. es),
      JSON_stringify = concat \<circ> map (\<lambda>(k, v). k @ '':'' @ v @ '';''),
      localeCompare = codeUnitCompare\<rparr>"


definition exampleImports :: "Import list" where
  "exampleImports =
     [\<lparr>imp_path = ''zod'', imp_kind = ''require-call'', imp_external = Some True\<rparr>,
      \<lparr>imp_path = ''./local'', imp_kind = ''require-call'', imp_external = None\<rparr>,
      \<lparr>imp_path = ''execa'', imp_kind = ''require-call'', imp_external = Some True\<rparr>,
      \<lparr>imp_path = ''node:fs'', imp_kind = ''require-call'', imp_external = Some True\<rparr>,
      \<lparr>imp_path = ''zod'', imp_kind = ''import-statement'', imp_external = Some True\<rparr>]"

section \<open>Background worker registry\<close>

subsection \<open>Request bodies and database rows\<close>

text \<open>
  \<open>TaskResource\<close> and its queue options, as \<open>createBackgroundTasks\<close> reads them:
  \<open>task.queue\<close>, \<open>task.queue.name\<close>, \<open>task.queue.concurrencyLimit\<close> and
  \<open>task.queue.rateLimit\<close> are all optional. The retry and rate limit options are only
  stored, never inspected: each is kept as its JSON text.
\<close>

datatype RetryOptions = RetryOptions string
datatype RateLimitOptions = RateLimitOptions string

record QueueOptions =
  queue_name :: "string option"
  queue_concurrencyLimit :: "int option"
  queue_rateLimit :: "RateLimitOptions option"

record TaskResource =
  task_id :: string
  task_filePath :: string
  task_exportName :: string
  task_retry :: "RetryOptions option"
  task_queue :: "QueueOptions option"

record BackgroundWorkerMetadata =
  md_contentHash :: string
  md_packageVersion :: string
  md_cliPackageVersion :: "string option"
  md_tasks :: "TaskResource list"

record CreateBackgroundWorkerRequestBody =
  body_metadata :: BackgroundWorkerMetadata

record AuthenticatedEnvironment =
  env_id :: string

text \<open>
  A friendly id is the prefix given to \<open>generateFriendlyId\<close> and a fresh number, taken
  from a counter of the state, as are the ids the database gives to new rows.
\<close>

type_synonym friendlyId = "string \<times> nat"

record Project =
  project_id :: string
  project_externalRef :: string
  project_environments :: "string list"

record BackgroundWorker =
  worker_id :: nat
  worker_friendlyId :: friendlyId
  worker_version :: string
  worker_runtimeEnvironmentId :: string
  worker_projectId :: string
  worker_metadata :: BackgroundWorkerMetadata
  worker_contentHash :: string
  worker_cliVersion :: "string option"
  worker_sdkVersion :: string

record BackgroundWorkerTask =
  bwt_friendlyId :: friendlyId
  bwt_projectId :: string
  bwt_runtimeEnvironmentId :: string
  bwt_workerId :: nat
  bwt_slug :: string
  bwt_filePath :: string
  bwt_exportName :: string
  bwt_retryConfig :: "RetryOptions option"
  bwt_queueConfig :: "QueueOptions option"

datatype TaskQueueType = NAMED | VIRTUAL

record TaskQueue =
  tq_friendlyId :: friendlyId
  tq_name :: string
  tq_concurrencyLimit :: "int option"
  tq_runtimeEnvironmentId :: string
  tq_projectId :: string
  tq_rateLimit :: "RateLimitOptions option"
  tq_type :: TaskQueueType

text \<open>
  The state the service works on: the four tables, each a list of rows in creation order
  (so the row with the greatest \<open>createdAt\<close> is the last one), the calls made to
  \<open>marqs.updateQueueConcurrency\<close> in order, and the counter that ids are drawn from.
\<close>

record state =
  projects :: "Project list"
  backgroundWorkers :: "BackgroundWorker list"
  backgroundWorkerTasks :: "BackgroundWorkerTask list"
  taskQueues :: "TaskQueue list"
  marqsCalls :: "(AuthenticatedEnvironment \<times> string \<times> int) list"
  nextId :: nat

datatype error = NotFoundError

subsection \<open>createBackgroundTasks\<close>

definition generateFriendlyId :: "string \<Rightarrow> state \<Rightarrow> friendlyId \<times> state" where
  "generateFriendlyId prefix s = ((prefix, nextId s), s\<lparr>nextId := Suc (nextId s)\<rparr>)"

text \<open>
  \<open>prisma.taskQueue.upsert\<close> on the unique key \<open>runtimeEnvironmentId_name\<close>: when a row
  with the key exists it is updated and returned, otherwise the \<open>create\<close> row is
  inserted and returned. In the \<open>update\<close> data a field that is \<open>undefined\<close> is left as
  it is.
\<close>

definition applyUpdate :: "int option \<Rightarrow> RateLimitOptions option \<Rightarrow> TaskQueue \<Rightarrow> TaskQueue" where
  "applyUpdate concurrencyLimit rateLimit q =
     q\<lparr>tq_concurrencyLimit :=
          (case concurrencyLimit of None \<Rightarrow> tq_concurrencyLimit q | Some l \<Rightarrow> Some l),
       tq_rateLimit := (case rateLimit of None \<Rightarrow> tq_rateLimit q | Some r \<Rightarrow> Some r)\<rparr>"

definition hasKey :: "string \<Rightarrow> string \<Rightarrow> TaskQueue \<Rightarrow> bool" where
  "hasKey runtimeEnvironmentId name q =
     (tq_runtimeEnvironmentId q = runtimeEnvironmentId \<and> tq_name q = name)"

definition taskQueue_upsert ::
  "string \<Rightarrow> string \<Rightarrow> int option \<Rightarrow> RateLimitOptions option \<Rightarrow> TaskQueue \<Rightarrow>
   TaskQueue list \<Rightarrow> TaskQueue \<times> TaskQueue list" where
  "taskQueue_upsert runtimeEnvironmentId name concurrencyLimit rateLimit create rows =
     (case find (hasKey runtimeEnvironmentId name) rows of
        Some q \<Rightarrow>
          (applyUpdate concurrencyLimit rateLimit q,
           map (\<lambda>r. if hasKey runtimeEnvironmentId name r
                     then applyUpdate concurrencyLimit rateLimit r else r) rows)
      | None \<Rightarrow> (create, rows @ [create]))"

text \<open>\<open>if (taskQueue.concurrencyLimit)\<close>: null, undefined and 0 are falsy.\<close>

fun truthy_number :: "int option \<Rightarrow> bool" where
  "truthy_number None = False"
| "truthy_number (Some n) = (n \<noteq> 0)"

text \<open>
  \<open>task.queue?.name\<close>, \<open>task.queue?.concurrencyLimit\<close> and \<open>task.queue?.rateLimit\<close>.
\<close>

definition queue_name_of :: "TaskResource \<Rightarrow> string option" where
  "queue_name_of task = (case task_queue task of None \<Rightarrow> None | Some q \<Rightarrow> queue_name q)"

definition queue_concurrencyLimit_of :: "TaskResource \<Rightarrow> int option" where
  "queue_concurrencyLimit_of task =
     (case task_queue task of None \<Rightarrow> None | Some q \<Rightarrow> queue_concurrencyLimit q)"

definition queue_rateLimit_of :: "TaskResource \<Rightarrow> RateLimitOptions option" where
  "queue_rateLimit_of task =
     (case task_queue task of None \<Rightarrow> None | Some q \<Rightarrow> queue_rateLimit q)"

text \<open>\<open>const queueName = task.queue?.name ?? `task/${task.id}`\<close>.\<close>

definition queueName :: "TaskResource \<Rightarrow> string" where
  "queueName task = (case queue_name_of task of None \<Rightarrow> ''task/'' @ task_id task | Some n \<Rightarrow> n)"

text \<open>
  The body of the loop of \<open>createBackgroundTasks\<close> for one task. \<open>marqs\<close> tells whether
  the imported \<open>marqs\<close> is defined (the call is \<open>marqs?.updateQueueConcurrency\<close>).
\<close>

definition createBackgroundTask ::
  "bool \<Rightarrow> BackgroundWorker \<Rightarrow> AuthenticatedEnvironment \<Rightarrow> state \<Rightarrow> TaskResource \<Rightarrow> state" where
  "createBackgroundTask marqs worker env s0 task =
     (let (taskFriendlyId, s1) = generateFriendlyId ''task'' s0;
          s2 = s1\<lparr>backgroundWorkerTasks := backgroundWorkerTasks s1 @
                 [\<lparr>bwt_friendlyId = taskFriendlyId,
                   bwt_projectId = worker_projectId worker,
                   bwt_runtimeEnvironmentId = worker_runtimeEnvironmentId worker,
                   bwt_workerId = worker_id worker,
                   bwt_slug = task_id task,
                   bwt_filePath = task_filePath task,
                   bwt_exportName = task_exportName task,
                   bwt_retryConfig = task_retry task,
                   bwt_queueConfig = task_queue task\<rparr>]\<rparr>;
          (queueFriendlyId, s3) = generateFriendlyId ''queue'' s2;
          (taskQueue, rows) =
            taskQueue_upsert (worker_runtimeEnvironmentId worker) (queueName task)
              (queue_concurrencyLimit_of task) (queue_rateLimit_of task)
              \<lparr>tq_friendlyId = queueFriendlyId,
               tq_name = queueName task,
               tq_concurrencyLimit = queue_concurrencyLimit_of task,
               tq_runtimeEnvironmentId = worker_runtimeEnvironmentId worker,
               tq_projectId = worker_projectId worker,
               tq_rateLimit = queue_rateLimit_of task,
               tq_type = (if truthy (queue_name_of task) then NAMED else VIRTUAL)\<rparr>
              (taskQueues s3);
          s4 = s3\<lparr>taskQueues := rows\<rparr>
      in if truthy_number (tq_concurrencyLimit taskQueue) \<and> marqs then
           s4\<lparr>marqsCalls := marqsCalls s4 @
                 [(env, tq_name taskQueue, the (tq_concurrencyLimit taskQueue))]\<rparr>
         else s4)"

definition createBackgroundTasks ::
  "bool \<Rightarrow> TaskResource list \<Rightarrow> BackgroundWorker \<Rightarrow> AuthenticatedEnvironment \<Rightarrow> state \<Rightarrow> state" where
  "createBackgroundTasks marqs tasks worker env s =
     foldl (createBackgroundTask marqs worker env) s tasks"

subsection \<open>CreateBackgroundWorkerService.call\<close>

text \<open>
  \<open>project.findUniqueOrThrow\<close> by \<open>externalRef\<close> among the projects that have the
  environment, and the included \<open>backgroundWorkers\<close>: the project's workers of the
  environment, ordered by \<open>createdAt\<close> descending, the first one taken.
\<close>

definition findProject :: "string \<Rightarrow> AuthenticatedEnvironment \<Rightarrow> state \<Rightarrow> Project option" where
  "findProject projectRef environment s =
     find (\<lambda>p. project_externalRef p = projectRef \<and> env_id environment \<in> set (project_environments p))
       (projects s)"

definition includedBackgroundWorkers ::
  "Project \<Rightarrow> AuthenticatedEnvironment \<Rightarrow> state \<Rightarrow> BackgroundWorker list" where
  "includedBackgroundWorkers project environment s =
     take 1 (rev (filter (\<lambda>w. worker_projectId w = project_id project \<and>
                            worker_runtimeEnvironmentId w = env_id environment)
                    (backgroundWorkers s)))"

text \<open>
  \<open>call\<close>. \<open>calculateNextBuildVersion\<close> (imported from
  \<open>../utils/calculateNextBuildVersion\<close>) is a parameter: it takes the latest worker's
  version, or nothing. The result is the error thrown, or the worker returned and the
  state left behind.
\<close>

definition call ::
  "(string option \<Rightarrow> string) \<Rightarrow> bool \<Rightarrow> string \<Rightarrow> AuthenticatedEnvironment \<Rightarrow>
   CreateBackgroundWorkerRequestBody \<Rightarrow> state \<Rightarrow> error + (BackgroundWorker \<times> state)" where
  "call calculateNextBuildVersion marqs projectRef environment body s =
     (case findProject projectRef environment s of
        None \<Rightarrow> Inl NotFoundError
      | Some project \<Rightarrow>
          let project_backgroundWorkers = includedBackgroundWorkers project environment s;
              latestBackgroundWorker =
                (case project_backgroundWorkers of [] \<Rightarrow> None | w # _ \<Rightarrow> Some w)
          in
          if map_option worker_contentHash latestBackgroundWorker =
               Some (md_contentHash (body_metadata body))
          then Inr (the latestBackgroundWorker, s)
          else
            let nextVersion =
                  calculateNextBuildVersion (map_option worker_version latestBackgroundWorker);
                (workerFriendlyId, s1) = generateFriendlyId ''worker'' s;
                backgroundWorker =
                  \<lparr>worker_id = nextId s1,
                   worker_friendlyId = workerFriendlyId,
                   worker_version = nextVersion,
                   worker_runtimeEnvironmentId = env_id environment,
                   worker_projectId = project_id project,
                   worker_metadata = body_metadata body,
                   worker_contentHash = md_contentHash (body_metadata body),
                   worker_cliVersion = md_cliPackageVersion (body_metadata body),
                   worker_sdkVersion = md_packageVersion (body_metadata body)\<rparr>;
                s2 = s1\<lparr>backgroundWorkers := backgroundWorkers s1 @ [backgroundWorker],
                        nextId := Suc (nextId s1)\<rparr>
            in Inr (backgroundWorker,
                    createBackgroundTasks marqs (md_tasks (body_metadata body)) backgroundWorker
                      environment s2))"

text \<open>Example inputs for evaluating the registry.\<close>

definition exampleState :: state where
  "exampleState =
     \<lparr>projects = [\<lparr>project_id = ''p1'', project_externalRef = ''proj_ref'',
                   project_environments = [''env1'']\<rparr>],
      backgroundWorkers = [], backgroundWorkerTasks = [], taskQueues = [],
      marqsCalls = [], nextId = 0\<rparr>"

definition exampleEnv :: AuthenticatedEnvironment where
  "exampleEnv = \<lparr>env_id = ''env1''\<rparr>"

definition exampleTask :: "QueueOptions option \<Rightarrow> TaskResource" where
  "exampleTask q =
     \<lparr>task_id = ''t1'', task_filePath = ''/t1.ts'', task_exportName = ''run'',
      task_retry = None, task_queue = q\<rparr>"

definition exampleBody :: "string \<Rightarrow> QueueOptions option \<Rightarrow> CreateBackgroundWorkerRequestBody" where
  "exampleBody h q =
     \<lparr>body_metadata =
        \<lparr>md_contentHash = h, md_packageVersion = ''3.0.0'', md_cliPackageVersion = None,
         md_tasks = [exampleTask q]\<rparr>\<rparr>"

text \<open>A version scheme for the examples: the first version, then one mark more each time.\<close>

definition exampleNextVersion :: "string option \<Rightarrow> string" where
  "exampleNextVersion v = (case v of None \<Rightarrow> ''1'' | Some w \<Rightarrow> w @ ''+'')"

text \<open>The \<open>create\<close> row that the loop body passes to the upsert, and the upsert it makes.\<close>

definition createRow :: "BackgroundWorker \<Rightarrow> state \<Rightarrow> TaskResource \<Rightarrow> TaskQueue" where
  "createRow worker s task =
     \<lparr>tq_friendlyId = (''queue'', Suc (nextId s)),
      tq_name = queueName task,
      tq_concurrencyLimit = queue_concurrencyLimit_of task,
      tq_runtimeEnvironmentId = worker_runtimeEnvironmentId worker,
      tq_projectId = worker_projectId worker,
      tq_rateLimit = queue_rateLimit_of task,
      tq_type = (if truthy (queue_name_of task) then NAMED else VIRTUAL)\<rparr>"

definition upserted :: "BackgroundWorker \<Rightarrow> state \<Rightarrow> TaskResource \<Rightarrow> TaskQueue \<times> TaskQueue list" where
  "upserted worker s task =
     taskQueue_upsert (worker_runtimeEnvironmentId worker) (queueName task)
       (queue_concurrencyLimit_of task) (queue_rateLimit_of task) (createRow worker s task)
       (taskQueues s)"

text \<open>
  The worker and the state that the first registration on \<open>exampleState\<close> gives, and a
  named queue with a concurrency limit.
\<close>

definition exampleWorker :: BackgroundWorker where
  "exampleWorker =
     \<lparr>worker_id = 1, worker_friendlyId = (''worker'', 0), worker_version = ''1'',
      worker_runtimeEnvironmentId = ''env1'', worker_projectId = ''p1'',
      worker_metadata = body_metadata (exampleBody ''A'' None),
      worker_contentHash = ''A'', worker_cliVersion = None, worker_sdkVersion = ''3.0.0''\<rparr>"

definition sharedQueue :: "int \<Rightarrow> QueueOptions" where
  "sharedQueue l = \<lparr>queue_name = Some ''shared'', queue_concurrencyLimit = Some l, queue_rateLimit = None\<rparr>"

definition exampleStateA :: state where
  "exampleStateA =
     \<lparr>projects = projects exampleState,
      backgroundWorkers = [exampleWorker],
      backgroundWorkerTasks =
        [\<lparr>bwt_friendlyId = (''task'', 2), bwt_projectId = ''p1'',
          bwt_runtimeEnvironmentId = ''env1'', bwt_workerId = 1, bwt_slug = ''t1'',
          bwt_filePath = ''/t1.ts'', bwt_exportName = ''run'', bwt_retryConfig = None,
          bwt_queueConfig = None\<rparr>],
      taskQueues =
        [\<lparr>tq_friendlyId = (''queue'', 3), tq_name = ''task/t1'', tq_concurrencyLimit = None,
          tq_runtimeEnvironmentId = ''env1'', tq_projectId = ''p1'', tq_rateLimit = None,
          tq_type = VIRTUAL\<rparr>],
      marqsCalls = [], nextId = 4\<rparr>"

text \<open>Registering a list of bodies one after the other, collecting the workers returned.\<close>

fun registerAll ::
  "CreateBackgroundWorkerRequestBody list \<Rightarrow> state \<Rightarrow> BackgroundWorker list \<times> state" where
  "registerAll [] s = ([], s)"
| "registerAll (body # bodies) s =
     (case call exampleNextVersion True ''proj_ref'' exampleEnv body s of
        Inl e \<Rightarrow> ([], s)
      | Inr (w, s') \<Rightarrow> (case registerAll bodies s' of (ws, s'') \<Rightarrow> (w # ws, s'')))"

section \<open>Deployment orchestrator\<close>

subsection \<open>The API client and the clock\<close>

text \<open>
  A response of the API client: \<open>{success: false, error}\<close> or \<open>{success: true, data}\<close>.
\<close>

datatype 'a ApiResult = Failure string | Success 'a

datatype DeploymentStatus = PENDING | BUILDING | DEPLOYING | DEPLOYED | ERROR

record Deployment =
  deployment_id :: string
  deployment_status :: DeploymentStatus

text \<open>
  What one call of \<open>getDeployment\<close> does: the milliseconds it takes and its response,
  and the milliseconds by which the \<open>setTimeout(1000)\<close> after it is late.
\<close>

record poll =
  latency :: nat
  response :: "Deployment ApiResult"
  overshoot :: nat

record ExternalBuildData =
  buildId :: string
  buildToken :: string
  buildProjectId :: string

record InitializeDeploymentResponse =
  init_id :: string
  init_version :: string
  init_imageTag :: string
  init_contentHash :: string
  init_externalBuildData :: "ExternalBuildData option"

text \<open>
  The methods of \<open>CliApiClient\<close> that the deploy command calls after the compilation.
  The data of \<open>getEnvironmentVariables\<close> is given by the own properties of its
  \<open>variables\<close>, a plain object. \<open>getDeployment\<close> takes the deployment id and the
  number of calls made before this one.
\<close>

record CliApiClient =
  getEnvironmentVariables :: "string \<Rightarrow> (string \<rightharpoonup> string) ApiResult"
  initializeDeployment :: "string \<Rightarrow> InitializeDeploymentResponse ApiResult"
  startDeploymentIndexing :: "string \<Rightarrow> string \<Rightarrow> unit ApiResult"
  getDeployment :: "string \<Rightarrow> nat \<Rightarrow> poll"

text \<open>The clock \<open>Date.now()\<close> in milliseconds and the number of polls made so far.\<close>

record world =
  now :: nat
  calls :: nat

datatype 'a outcome = Returned 'a | Threw string

subsection \<open>waitForDeploymentToComplete\<close>

text \<open>
  The loop \<open>while (true)\<close> of \<open>waitForDeploymentToComplete\<close>. \<open>return;\<close> returns
  undefined, here \<open>Returned None\<close>. Every turn that goes on takes at least the 1000
  milliseconds of \<open>setTimeout\<close>, so the loop ends.
\<close>

function waitLoop ::
  "CliApiClient \<Rightarrow> string \<Rightarrow> nat \<Rightarrow> nat \<Rightarrow> world \<Rightarrow> Deployment option outcome \<times> world" where
  "waitLoop client deploymentId timeoutInSeconds start w =
     (if now w - start > timeoutInSeconds * 1000 then (Returned None, w)
      else
        let p = getDeployment client deploymentId (calls w);
            w1 = w\<lparr>now := now w + latency p, calls := Suc (calls w)\<rparr>
        in case response p of
             Failure e \<Rightarrow> (Threw e, w1)
           | Success data \<Rightarrow>
               if deployment_status data = DEPLOYED then (Returned (Some data), w1)
               else waitLoop client deploymentId timeoutInSeconds start
                      (w1\<lparr>now := now w1 + 1000 + overshoot p\<rparr>))"
  by pat_completeness auto
termination
  by (relation "measure (\<lambda>(client, deploymentId, timeoutInSeconds, start, w).
        start + timeoutInSeconds * 1000 + 1 - now w)") auto

text \<open>
  \<open>waitForDeploymentToComplete(deploymentId, client, timeoutInSeconds = 60)\<close>, entered
  when the clock shows \<open>start\<close>.
\<close>

definition waitForDeploymentToComplete ::
  "string \<Rightarrow> CliApiClient \<Rightarrow> nat option \<Rightarrow> nat \<Rightarrow> Deployment option outcome \<times> world" where
  "waitForDeploymentToComplete deploymentId client timeoutInSeconds start =
     waitLoop client deploymentId (case timeoutInSeconds of None \<Rightarrow> 60 | Some t \<Rightarrow> t) start
       \<lparr>now = start, calls = 0\<rparr>"

text \<open>
  The milliseconds between the entry of the loop and its \<open>k\<close>-th check of the clock,
  when the polls before it all went on to the \<open>setTimeout\<close>.
\<close>

primrec elapsed :: "CliApiClient \<Rightarrow> string \<Rightarrow> nat \<Rightarrow> nat" where
  "elapsed client deploymentId 0 = 0"
| "elapsed client deploymentId (Suc k) =
     elapsed client deploymentId k + latency (getDeployment client deploymentId k) + 1000 +
       overshoot (getDeployment client deploymentId k)"

text \<open>Every poll succeeds with a status other than DEPLOYED.\<close>

definition neverDeployed :: "CliApiClient \<Rightarrow> string \<Rightarrow> bool" where
  "neverDeployed client deploymentId =
     (\<forall>k. \<exists>d. response (getDeployment client deploymentId k) = Success d \<and>
               deployment_status d \<noteq> DEPLOYED)"

subsection \<open>The deploy command after the compilation\<close>

record Compilation =
  comp_path :: string
  comp_contentHash :: string
  comp_envVars :: "string list"

text \<open>The options that the steps after the compilation read.\<close>

record DeployCommandOptions =
  skipDeploy :: bool
  selfHosted :: bool

text \<open>\<open>BuildAndPushImageResults\<close>: the image and its optional digest, or the error.\<close>

datatype BuildAndPushImageResults = ImageOk string "string option" | ImageFailed string

text \<open>
  What the command does to the outside, in order: what the spinners show, the requests
  that change the server, the image builds, and how the process ends when it does not
  simply return.
\<close>

datatype effect =
    SpinnerStart string
  | SpinnerStop string
  | SpinnerMessage string
  | InitializeDeployment string
  | BuildAndPushSelfHostedImage string
  | BuildAndPushImage string
  | StartDeploymentIndexing string string
  | Exit nat
  | Throw string

text \<open>
  Parts that are not in this file, as parameters: the two image builders (functions of
  the image tag), and the rendering \<open>chalk.bgBlueBright(terminalLink(text, url))\<close>.
\<close>

record collaborators =
  buildAndPushSelfHostedImage :: "string \<Rightarrow> BuildAndPushImageResults"
  buildAndPushImage :: "string \<Rightarrow> BuildAndPushImageResults"
  bgBlueBright_terminalLink :: "string \<Rightarrow> string \<Rightarrow> string"

fun join :: "string \<Rightarrow> string list \<Rightarrow> string" where
  "join sep [] = []"
| "join sep [x] = x"
| "join sep (x # y # ys) = x @ sep @ join sep (y # ys)"

text \<open>
  \<open>arrayToSentence\<close>. On the empty array \<open>items[items.length - 1]\<close> is undefined, which
  the template prints as the word.
\<close>

fun arrayToSentence :: "string list \<Rightarrow> string" where
  "arrayToSentence [item] = item"
| "arrayToSentence [a, b] = a @ '' and '' @ b"
| "arrayToSentence items =
     join '', '' (butlast items) @ '', and '' @
       (case items of [] \<Rightarrow> ''undefined'' | _ \<Rightarrow> last items)"

text \<open>
  Steps 2 to 6 of \<open>deployCommand\<close>: initialise the deployment, build and push the image,
  start the indexing and wait for the deployment. \<open>start\<close> is what the clock shows when
  the wait begins. The second test of \<open>externalBuildData\<close>, inside \<open>buildImage\<close>, is
  reached only when the first has passed, where it cannot fail; it is left out.
\<close>

definition deployAfterCheck ::
  "DeployCommandOptions \<Rightarrow> string \<Rightarrow> collaborators \<Rightarrow> CliApiClient \<Rightarrow> Compilation \<Rightarrow> nat \<Rightarrow>
   effect list" where
  "deployAfterCheck options registryHost co environmentClient compilation start =
     SpinnerStart ''Initializing deployment'' #
     InitializeDeployment (comp_contentHash compilation) #
     (case initializeDeployment environmentClient (comp_contentHash compilation) of
        Failure err \<Rightarrow> [SpinnerStop (''Failed to start deployment: '' @ err), Exit 1]
      | Success d \<Rightarrow>
          SpinnerMessage (''Deploying version '' @ init_version d) #
          (if init_externalBuildData d = None \<and> \<not> selfHosted options then
             [SpinnerStop ''Failed to start deployment, as your instance of trigger.dev does not support hosting. To deploy this project, you must use the --self-hosted flag to build and push the image yourself.'',
              Exit 1]
           else
             (if selfHosted options then BuildAndPushSelfHostedImage (init_imageTag d)
              else BuildAndPushImage (init_imageTag d)) #
             (case (if selfHosted options then buildAndPushSelfHostedImage co (init_imageTag d)
                    else buildAndPushImage co (init_imageTag d)) of
                ImageFailed err \<Rightarrow>
                  [SpinnerStop (''Failed to build and push image: '' @ err), Exit 1]
              | ImageOk imageName imageDigest \<Rightarrow>
                  let suffix = (if truthy imageDigest then ''@'' @ the imageDigest else '''');
                      imageReference =
                        (if selfHosted options then imageName @ suffix
                         else registryHost @ ''/'' @ imageName @ suffix)
                  in
                  if skipDeploy options then
                    [SpinnerStop (''Image built and pushed: '' @ imageReference @
                       ''. Skipping deployment as requested''),
                     Exit 0]
                  else
                    SpinnerMessage (init_version d @ '' image built, starting indexing process'') #
                    StartDeploymentIndexing (init_id d) imageReference #
                    (case startDeploymentIndexing environmentClient (init_id d) imageReference of
                       Failure err \<Rightarrow> [SpinnerStop (''Failed to start indexing: '' @ err), Exit 1]
                     | Success _ \<Rightarrow>
                         (case fst (waitForDeploymentToComplete (init_id d) environmentClient
                                      None start) of
                            Threw err \<Rightarrow> [Throw err]
                          | Returned None \<Rightarrow>
                              [SpinnerStop ''Deployment failed to complete'', Exit 1]
                          | Returned (Some completedDeployment) \<Rightarrow>
                              [SpinnerStop
                                 ''Deployment completed successfully, you can now use this version''])))))"

text \<open>
  \<open>deployCommand\<close> from the check of the environment variables on. The steps before it
  (the options, the login, the configuration, the project's environment and the
  compilation) give \<open>options\<close>, \<open>apiUrl\<close>, \<open>project\<close>, \<open>registryHost\<close>, the
  \<open>environmentClient\<close> and the \<open>compilation\<close>. A variable counts as missing when
  \<open>variables[envVar] === undefined\<close>, which a name that \<open>Object.prototype\<close> has never
  is.
\<close>

definition deployCommand ::
  "DeployCommandOptions \<Rightarrow> string \<Rightarrow> string \<Rightarrow> string \<Rightarrow> collaborators \<Rightarrow> CliApiClient \<Rightarrow>
   Compilation \<Rightarrow> nat \<Rightarrow> effect list" where
  "deployCommand options apiUrl project registryHost co environmentClient compilation start =
     SpinnerStart ''Checking environment variables'' #
     (case getEnvironmentVariables environmentClient project of
        Failure err \<Rightarrow>
          SpinnerStop ''Failed to fetch environment variables, skipping check'' #
          deployAfterCheck options registryHost co environmentClient compilation start
      | Success variables \<Rightarrow>
          let missingEnvironmentVariables =
                filter (\<lambda>envVar. getProperty variables envVar = Undefined)
                  (comp_envVars compilation)
          in
          if length missingEnvironmentVariables > 0 then
            [SpinnerStop (''Project missing env vars: '' @
               arrayToSentence missingEnvironmentVariables @ ''. Aborting deployment. '' @
               bgBlueBright_terminalLink co ''Manage env vars''
                 (apiUrl @ ''/projects/v3/'' @ project @ ''/environment-variables'')),
             Exit 1]
          else
            SpinnerStop ''All required environment variables are present'' #
            deployAfterCheck options registryHost co environmentClient compilation start)"

text \<open>Example collaborators, clients and a compilation that refers to FOO and BAR.\<close>

definition exampleCollaborators :: collaborators where
  "exampleCollaborators =
     \<lparr>buildAndPushSelfHostedImage = (\<lambda>tag. ImageOk tag None),
      buildAndPushImage = (\<lambda>tag. ImageOk tag None),
      bgBlueBright_terminalLink = (\<lambda>text url. text @ '' <'' @ url @ ''>'')\<rparr>"

definition exampleClient ::
  "(string \<rightharpoonup> string) ApiResult \<Rightarrow> (nat \<Rightarrow> Deployment ApiResult) \<Rightarrow> CliApiClient" where
  "exampleClient variables responses =
     \<lparr>getEnvironmentVariables = (\<lambda>project. variables),
      initializeDeployment = (\<lambda>h. Success
        \<lparr>init_id = ''d1'', init_version = ''20240306.1'', init_imageTag = ''img:1'',
         init_contentHash = h,
         init_externalBuildData =
           Some \<lparr>buildId = ''b'', buildToken = ''t'', buildProjectId = ''bp''\<rparr>\<rparr>),
      startDeploymentIndexing = (\<lambda>i r. Success ()),
      getDeployment = (\<lambda>i k. \<lparr>latency = 0, response = responses k, overshoot = 0\<rparr>)\<rparr>"

definition always :: "DeploymentStatus \<Rightarrow> nat \<Rightarrow> Deployment ApiResult" where
  "always st k = Success \<lparr>deployment_id = ''d1'', deployment_status = st\<rparr>"

text \<open>Polls that show PENDING, but for the one numbered \<open>n\<close>, which fails.\<close>

definition failingAt :: "nat \<Rightarrow> string \<Rightarrow> nat \<Rightarrow> Deployment ApiResult" where
  "failingAt n e k = (if k = n then Failure e else always PENDING k)"

definition exampleCompilation :: Compilation where
  "exampleCompilation =
     \<lparr>comp_path = ''/tmp/build'', comp_contentHash = ''abc'', comp_envVars = [''FOO'', ''BAR'']\<rparr>"

definition exampleOptions :: DeployCommandOptions where
  "exampleOptions = \<lparr>skipDeploy = False, selfHosted = False\<rparr>"

section \<open>Coordinator wire protocol schemas\<close>

subsection \<open>Values and schemas\<close>

text \<open>
  A JavaScript value as a schema sees it. An object is the list of its entries; a key
  that is not there reads as undefined. No schema of the catalogue looks at the value of
  a number, which is kept as an integer.
\<close>

datatype json =
    JUndefined
  | JNull
  | JBoolean bool
  | JNumber int
  | JString string
  | JArray "json list"
  | JObject "(string \<times> json) list"

fun field :: "(string \<times> json) list \<Rightarrow> string \<Rightarrow> json" where
  "field [] k = JUndefined"
| "field ((k', v) # kvs) k = (if k' = k then v else field kvs k)"

text \<open>
  The zod schemas that \<open>schemas.ts\<close> builds. \<open>ZRef\<close> is a schema imported from another
  module (\<open>TaskResource\<close>, \<open>TaskRunExecution\<close>, ...).
\<close>

datatype zschema =
    ZString
  | ZNumber
  | ZBoolean
  | ZAny
  | ZVoid
  | ZLiteral json
  | ZEnum "string list"
  | ZOptional zschema
  | ZDefault zschema json
  | ZArray zschema
  | ZObject "(string \<times> zschema) list"
  | ZDiscriminatedUnion string "zschema list"
  | ZRef string

text \<open>
  Whether an option of a discriminated union is the one for a value of the
  discriminator: its shape gives the discriminator that literal.
\<close>

fun discriminates :: "string \<Rightarrow> json \<Rightarrow> zschema \<Rightarrow> bool" where
  "discriminates d v (ZObject shape) = (map_of shape d = Some (ZLiteral v))"
| "discriminates d v s = False"

text \<open>
  Parsing: the parsed value, or nothing when the schema rejects the input. \<open>refs\<close> parses
  with the imported schemas. An object schema reads each key of its shape from the
  input, drops every other key, and leaves out keys whose parsed value is undefined. A
  default replaces an undefined input before the inner schema parses. A discriminated
  union parses with the option that the input's discriminator selects.
\<close>

fun parse :: "(string \<Rightarrow> json \<Rightarrow> json option) \<Rightarrow> zschema \<Rightarrow> json \<Rightarrow> json option"
  and parse_fields ::
    "(string \<Rightarrow> json \<Rightarrow> json option) \<Rightarrow> (string \<times> zschema) list \<Rightarrow> (string \<times> json) list \<Rightarrow>
     (string \<times> json) list option"
  and parse_items ::
    "(string \<Rightarrow> json \<Rightarrow> json option) \<Rightarrow> zschema \<Rightarrow> json list \<Rightarrow> json list option"
  and parse_option ::
    "(string \<Rightarrow> json \<Rightarrow> json option) \<Rightarrow> string \<Rightarrow> zschema list \<Rightarrow> (string \<times> json) list \<Rightarrow>
     json option"
  where
  "parse refs ZString v = (case v of JString s \<Rightarrow> Some v | _ \<Rightarrow> None)"
| "parse refs ZNumber v = (case v of JNumber n \<Rightarrow> Some v | _ \<Rightarrow> None)"
| "parse refs ZBoolean v = (case v of JBoolean b \<Rightarrow> Some v | _ \<Rightarrow> None)"
| "parse refs ZAny v = Some v"
| "parse refs ZVoid v = (if v = JUndefined then Some v else None)"
| "parse refs (ZLiteral l) v = (if v = l then Some v else None)"
| "parse refs (ZEnum values) v =
     (case v of JString s \<Rightarrow> if s \<in> set values then Some v else None | _ \<Rightarrow> None)"
| "parse refs (ZOptional s) v = (if v = JUndefined then Some JUndefined else parse refs s v)"
| "parse refs (ZDefault s d) v = parse refs s (if v = JUndefined then d else v)"
| "parse refs (ZArray s) v =
     (case v of JArray items \<Rightarrow> map_option JArray (parse_items refs s items) | _ \<Rightarrow> None)"
| "parse refs (ZObject shape) v =
     (case v of JObject kvs \<Rightarrow> map_option JObject (parse_fields refs shape kvs) | _ \<Rightarrow> None)"
| "parse refs (ZDiscriminatedUnion d options) v =
     (case v of JObject kvs \<Rightarrow> parse_option refs d options kvs | _ \<Rightarrow> None)"
| "parse refs (ZRef name) v = refs name v"
| "parse_fields refs [] kvs = Some []"
| "parse_fields refs ((k, s) # shape) kvs =
     (case parse refs s (field kvs k) of
        None \<Rightarrow> None
      | Some v \<Rightarrow>
          (case parse_fields refs shape kvs of
             None \<Rightarrow> None
           | Some out \<Rightarrow> Some (if v = JUndefined then out else (k, v) # out)))"
| "parse_items refs s [] = Some []"
| "parse_items refs s (item # items) =
     (case parse refs s item of
        None \<Rightarrow> None
      | Some v \<Rightarrow> map_option ((#) v) (parse_items refs s items))"
| "parse_option refs d [] kvs = None"
| "parse_option refs d (opt # options) kvs =
     (if discriminates d (field kvs d) opt then parse refs opt (JObject kvs)
      else parse_option refs d options kvs)"

subsection \<open>The message catalogues of schemas.ts\<close>

text \<open>An entry of a catalogue: the schema of the message and, if any, of the callback.\<close>

record messageSchema =
  message :: zschema
  callback :: "zschema option"

text \<open>\<open>version: z.literal("v1").default("v1")\<close>, the first key of every message.\<close>

definition version :: "string \<times> zschema" where
  "version = (''version'', ZDefault (ZLiteral (JString ''v1'')) (JString ''v1''))"

text \<open>
  \<open>z.discriminatedUnion("success", [z.object({success: z.literal(false)}),
  z.object({success: z.literal(true), ...payload})])\<close>.
\<close>

definition successEnvelope :: "(string \<times> zschema) list \<Rightarrow> zschema" where
  "successEnvelope payload =
     ZDiscriminatedUnion ''success''
       [ZObject [(''success'', ZLiteral (JBoolean False))],
        ZObject ((''success'', ZLiteral (JBoolean True)) # payload)]"

definition Machine :: zschema where
  "Machine =
     ZObject [(''cpu'', ZOptional (ZDefault ZString (JString ''1''))),
              (''memory'', ZOptional (ZDefault ZString (JString ''500Mi'')))]"

definition ProviderToPlatformMessages :: "(string \<times> messageSchema) list" where
  "ProviderToPlatformMessages =
     [(''LOG'', \<lparr>message = ZObject [version, (''data'', ZString)], callback = None\<rparr>),
      (''LOG_WITH_ACK'',
        \<lparr>message = ZObject [version, (''data'', ZString)],
         callback = Some (ZObject [(''status'', ZLiteral (JString ''ok''))])\<rparr>)]"

definition PlatformToProviderMessages :: "(string \<times> messageSchema) list" where
  "PlatformToProviderMessages =
     [(''HEALTH'',
        \<lparr>message = ZObject [version],
         callback = Some (ZObject [(''status'', ZLiteral (JString ''ok''))])\<rparr>),
      (''INDEX'',
        \<lparr>message = ZObject [version, (''imageTag'', ZString), (''contentHash'', ZString),
                             (''envId'', ZString), (''apiKey'', ZString), (''apiUrl'', ZString)],
         callback = None\<rparr>),
      (''INVOKE'',
        \<lparr>message = ZObject [version, (''name'', ZString), (''machine'', Machine)],
         callback = None\<rparr>),
      (''RESTORE'',
        \<lparr>message = ZObject [version, (''id'', ZString), (''attemptId'', ZString),
                             (''type'', ZEnum [''DOCKER'', ''KUBERNETES'']),
                             (''location'', ZString), (''reason'', ZOptional ZString)],
         callback = None\<rparr>),
      (''DELETE'',
        \<lparr>message = ZObject [version, (''name'', ZString)],
         callback = Some (ZObject [(''message'', ZString)])\<rparr>),
      (''GET'', \<lparr>message = ZObject [version, (''name'', ZString)], callback = None\<rparr>)]"

definition CoordinatorToPlatformMessages :: "(string \<times> messageSchema) list" where
  "CoordinatorToPlatformMessages =
     [(''LOG'',
        \<lparr>message = ZObject [version, (''metadata'', ZAny), (''text'', ZString)],
         callback = None\<rparr>),
      (''CREATE_WORKER'',
        \<lparr>message = ZObject [version, (''projectRef'', ZString), (''envId'', ZString),
                             (''deploymentId'', ZString),
                             (''metadata'',
                                ZObject [(''cliPackageVersion'', ZOptional ZString),
                                         (''contentHash'', ZString),
                                         (''packageVersion'', ZString),
                                         (''tasks'', ZArray (ZRef ''TaskResource''))])],
         callback = Some (successEnvelope [])\<rparr>),
      (''READY_FOR_EXECUTION'',
        \<lparr>message = ZObject [version, (''attemptId'', ZString)],
         callback = Some (successEnvelope [(''payload'', ZRef ''ProdTaskRunExecutionPayload'')])\<rparr>),
      (''TASK_RUN_COMPLETED'',
        \<lparr>message = ZObject [version, (''execution'', ZRef ''ProdTaskRunExecution''),
                             (''completion'', ZRef ''TaskRunExecutionResult'')],
         callback = None\<rparr>),
      (''TASK_HEARTBEAT'',
        \<lparr>message = ZObject [version, (''attemptFriendlyId'', ZString)], callback = None\<rparr>),
      (''CHECKPOINT_CREATED'',
        \<lparr>message = ZObject [version, (''attemptId'', ZString), (''docker'', ZBoolean),
                             (''location'', ZString), (''reason'', ZOptional ZString)],
         callback = None\<rparr>)]"

definition PlatformToCoordinatorMessages :: "(string \<times> messageSchema) list" where
  "PlatformToCoordinatorMessages =
     [(''RESUME'',
        \<lparr>message = ZObject [version, (''attemptId'', ZString), (''image'', ZString),
                             (''completions'', ZArray (ZRef ''TaskRunExecutionResult'')),
                             (''executions'', ZArray (ZRef ''TaskRunExecution''))],
         callback = None\<rparr>)]"

definition ClientToSharedQueueMessages :: "(string \<times> messageSchema) list" where
  "ClientToSharedQueueMessages =
     [(''READY_FOR_TASKS'',
        \<lparr>message = ZObject [version, (''backgroundWorkerId'', ZString)], callback = None\<rparr>),
      (''BACKGROUND_WORKER_DEPRECATED'',
        \<lparr>message = ZObject [version, (''backgroundWorkerId'', ZString)], callback = None\<rparr>),
      (''BACKGROUND_WORKER_MESSAGE'',
        \<lparr>message = ZObject [version, (''backgroundWorkerId'', ZString),
                             (''data'', ZRef ''BackgroundWorkerClientMessages'')],
         callback = None\<rparr>)]"

definition SharedQueueToClientMessages :: "(string \<times> messageSchema) list" where
  "SharedQueueToClientMessages =
     [(''SERVER_READY'', \<lparr>message = ZObject [version, (''id'', ZString)], callback = None\<rparr>),
      (''BACKGROUND_WORKER_MESSAGE'',
        \<lparr>message = ZObject [version, (''backgroundWorkerId'', ZString),
                             (''data'', ZRef ''BackgroundWorkerServerMessages'')],
         callback = None\<rparr>)]"

definition ProdWorkerToCoordinatorMessages :: "(string \<times> messageSchema) list" where
  "ProdWorkerToCoordinatorMessages =
     [(''LOG'', \<lparr>message = ZObject [version, (''text'', ZString)], callback = Some ZVoid\<rparr>),
      (''INDEX_TASKS'',
        \<lparr>message = ZObject [version, (''deploymentId'', ZString),
                             (''tasks'', ZArray (ZRef ''TaskResource'')),
                             (''packageVersion'', ZString)],
         callback = Some (successEnvelope [])\<rparr>),
      (''READY_FOR_EXECUTION'',
        \<lparr>message = ZObject [version, (''attemptId'', ZString)], callback = None\<rparr>),
      (''TASK_HEARTBEAT'',
        \<lparr>message = ZObject [version, (''attemptFriendlyId'', ZString)], callback = None\<rparr>),
      (''WAIT_FOR_BATCH'',
        \<lparr>message = ZObject [version, (''id'', ZString), (''runs'', ZArray ZString)],
         callback = None\<rparr>),
      (''WAIT_FOR_DURATION'',
        \<lparr>message = ZObject [version, (''ms'', ZNumber)],
         callback = Some (successEnvelope [])\<rparr>),
      (''WAIT_FOR_TASK'', \<lparr>message = ZObject [version, (''id'', ZString)], callback = None\<rparr>)]"

definition CoordinatorToProdWorkerMessages :: "(string \<times> messageSchema) list" where
  "CoordinatorToProdWorkerMessages =
     [(''RESUME'',
        \<lparr>message = ZObject [version, (''attemptId'', ZString), (''image'', ZString),
                             (''completions'', ZArray (ZRef ''TaskRunExecutionResult'')),
                             (''executions'', ZArray (ZRef ''TaskRunExecution''))],
         callback = None\<rparr>),
      (''EXECUTE_TASK_RUN'',
        \<lparr>message = ZObject [version, (''executionPayload'', ZRef ''ProdTaskRunExecutionPayload'')],
         callback = Some (successEnvelope [(''completion'', ZRef ''TaskRunExecutionResult'')])\<rparr>)]"

text \<open>All the messages of the file; the coordinator's four catalogues are among them.\<close>

definition allMessages :: "(string \<times> messageSchema) list" where
  "allMessages =
     ProviderToPlatformMessages @ PlatformToProviderMessages @ CoordinatorToPlatformMessages @
     PlatformToCoordinatorMessages @ ClientToSharedQueueMessages @ SharedQueueToClientMessages @
     ProdWorkerToCoordinatorMessages @ CoordinatorToProdWorkerMessages"

text \<open>
  What is checked of each entry: the message is an object whose first key is the version
  tag, and a callback that is a discriminated union is one on \<open>success\<close> whose first
  option has the one key \<open>success: false\<close> and whose other options do not take false.
\<close>

fun versioned :: "zschema \<Rightarrow> bool" where
  "versioned (ZObject (f # shape)) = (f = version)"
| "versioned s = False"

fun envelope :: "zschema \<Rightarrow> bool" where
  "envelope (ZDiscriminatedUnion d (failure # options)) =
     (d = ''success'' \<and> failure = ZObject [(''success'', ZLiteral (JBoolean False))] \<and>
      list_all (\<lambda>opt. \<not> discriminates ''success'' (JBoolean False) opt) options)"
| "envelope (ZDiscriminatedUnion d []) = False"
| "envelope s = True"

definition wellFormed :: "messageSchema \<Rightarrow> bool" where
  "wellFormed m =
     (versioned (message m) \<and> (case callback m of None \<Rightarrow> True | Some cb \<Rightarrow> envelope cb))"

text \<open>The entry \<open>READY_FOR_EXECUTION\<close> of \<open>CoordinatorToPlatformMessages\<close>.\<close>

definition exampleMessage :: messageSchema where
  "exampleMessage =
     \<lparr>message = ZObject [version, (''attemptId'', ZString)],
      callback = Some (successEnvelope [(''payload'', ZRef ''ProdTaskRunExecutionPayload'')])\<rparr>"

section \<open>Proofs: build pipeline\<close>

lemma truthy_iff: "truthy v \<longleftrightarrow> (\<exists>s. v = Some s \<and> s \<noteq> [])"
  by (cases v) auto

lemma set_defineProperty: "set (defineProperty deps k v) = insert (k, v) (set deps)"
  by (induction deps k v rule: defineProperty.induct) (auto split: option.splits)

lemma distinct_defineProperty:
  "k \<notin> fst ` set deps \<Longrightarrow> distinct (map fst deps) \<Longrightarrow>
   distinct (map fst (defineProperty deps k v))"
  by (induction deps k v rule: defineProperty.induct)
     (auto simp: set_defineProperty split: option.splits)

lemma map_of_defineProperty:
  assumes "k \<notin> fst ` set deps" "distinct (map fst deps)"
  shows "map_of (defineProperty deps k v) q = (if q = k then Some v else map_of deps q)"
proof -
  have d: "distinct (map fst (defineProperty deps k v))"
    using assms by (rule distinct_defineProperty)
  show ?thesis
  proof (cases "q = k")
    case True
    have "(k, v) \<in> set (defineProperty deps k v)" by (simp add: set_defineProperty)
    with d True show ?thesis by simp
  next
    case False
    show ?thesis
    proof (cases "map_of deps q")
      case None
      then have "q \<notin> fst ` set deps" by (simp add: map_of_eq_None_iff)
      with False have "q \<notin> fst ` set (defineProperty deps k v)"
        by (auto simp: set_defineProperty)
      then have "map_of (defineProperty deps k v) q = None" by (simp add: map_of_eq_None_iff)
      with None False show ?thesis by simp
    next
      case (Some w)
      then have "(q, w) \<in> set deps" by (rule map_of_SomeD)
      then have "(q, w) \<in> set (defineProperty deps k v)" by (simp add: set_defineProperty)
      with d have "map_of (defineProperty deps k v) q = Some w" by simp
      with Some False show ?thesis by simp
    qed
  qed
qed

lemma depsInv_defineProperty:
  assumes "depsInv deps" "k \<notin> fst ` set deps" "k \<notin> set objectPrototypeNames" "v \<noteq> []"
  shows "depsInv (defineProperty deps k v)"
  using assms unfolding depsInv_def
  by (auto simp: set_defineProperty distinct_defineProperty)

lemma getProperty_plain:
  "name \<notin> set objectPrototypeNames \<Longrightarrow>
   truthy_property (getProperty own name) = truthy (own name)"
  by (cases "own name") (simp_all add: getProperty_def)

lemma depsInv_truthy:
  assumes "depsInv deps"
  shows "truthy_property (getProperty (map_of deps) p) \<longleftrightarrow>
         p \<in> fst ` set deps \<or> p \<in> set objectPrototypeNames"
proof (cases "p \<in> fst ` set deps")
  case True
  then obtain s where s: "(p, s) \<in> set deps" by auto
  with assms have "map_of deps p = Some s" by (simp add: depsInv_def)
  moreover from s assms have "s \<noteq> []" by (force simp: depsInv_def)
  ultimately show ?thesis using True by (simp add: getProperty_def)
next
  case False
  then have "map_of deps p = None" by (simp add: map_of_eq_None_iff)
  with False show ?thesis by (simp add: getProperty_def)
qed

lemma gatherStep_assigns_own:
  assumes "[] \<notin> snd ` set dependencies"
    and "\<not> truthy_property (getProperty (map_of dependencies) packageName)"
  shows "getProperty own packageName \<noteq> Inherited"
proof (cases "map_of dependencies packageName")
  case None
  with assms(2) have "packageName \<notin> set objectPrototypeNames"
    by (auto simp: getProperty_def split: if_splits)
  then show ?thesis by (auto simp: getProperty_def split: option.splits)
next
  case (Some v)
  then have "(packageName, v) \<in> set dependencies" by (rule map_of_SomeD)
  with assms(1) have "v \<noteq> []" by force
  with Some assms(2) show ?thesis by (simp add: getProperty_def)
qed

lemma resolveVersion_Some: "resolveVersion cli ext p = Some v \<Longrightarrow> v \<noteq> []"
  by (auto simp: resolveVersion_def Let_def truthy_iff split: if_splits)

lemma assign_plain:
  assumes "name \<notin> set objectPrototypeNames" "truthy_property (getProperty own name)"
  shows "assign deps name (getProperty own name) = defineProperty deps name (the (own name))"
  using assms by (cases "own name") (simp_all add: getProperty_def)

lemma gatherStep_eq:
  assumes "depsInv deps"
  shows "gatherStep det cli ext deps f =
    (if imp_kind f = ''require-call'' \<and> truthy_bool (imp_external f) \<and>
        det (imp_path f) \<notin> fst ` set deps \<and> det (imp_path f) \<notin> set objectPrototypeNames
     then (case resolveVersion cli ext (det (imp_path f)) of
             None \<Rightarrow> deps | Some v \<Rightarrow> defineProperty deps (det (imp_path f)) v)
     else deps)"
proof (cases "imp_kind f = ''require-call'' \<and> truthy_bool (imp_external f) \<and>
        det (imp_path f) \<notin> fst ` set deps \<and> det (imp_path f) \<notin> set objectPrototypeNames")
  case False
  then show ?thesis
    unfolding gatherStep_def Let_def depsInv_truthy[OF assms] by auto
next
  case True
  then have np: "det (imp_path f) \<notin> set objectPrototypeNames" by simp
  show ?thesis
    using True
    unfolding gatherStep_def Let_def depsInv_truthy[OF assms] resolveVersion_def
    by (auto simp: getProperty_plain[OF np] assign_plain[OF np] truthy_iff)
qed

lemma gatherStep_inv:
  assumes "depsInv deps"
  shows "depsInv (gatherStep det cli ext deps f)"
  unfolding gatherStep_eq[OF assms]
  using assms
  by (auto split: option.splits intro!: depsInv_defineProperty dest: resolveVersion_Some)

lemma gatherStep_map_of:
  assumes "depsInv deps"
  shows "map_of (gatherStep det cli ext deps f) p =
    (if p \<in> fst ` set deps then map_of deps p
     else if p = det (imp_path f) \<and> imp_kind f = ''require-call'' \<and>
             truthy_bool (imp_external f) \<and> p \<notin> set objectPrototypeNames
     then resolveVersion cli ext p else None)"
proof -
  have dist: "distinct (map fst deps)" using assms by (simp add: depsInv_def)
  show ?thesis
  proof (cases "p \<in> fst ` set deps")
    case True
    then have "p \<noteq> det (imp_path f) \<or> det (imp_path f) \<in> fst ` set deps" by blast
    with True show ?thesis
      unfolding gatherStep_eq[OF assms]
      by (auto simp: map_of_defineProperty[OF _ dist] split: option.splits)
  next
    case False
    then have "map_of deps p = None" by (simp add: map_of_eq_None_iff)
    with False show ?thesis
      unfolding gatherStep_eq[OF assms]
      by (auto simp: map_of_defineProperty[OF _ dist] split: option.splits)
  qed
qed

lemma gatherStep_keys:
  assumes "depsInv deps"
  shows "fst ` set (gatherStep det cli ext deps f) =
    fst ` set deps \<union>
    (if imp_kind f = ''require-call'' \<and> truthy_bool (imp_external f) \<and>
        det (imp_path f) \<notin> set objectPrototypeNames \<and>
        resolveVersion cli ext (det (imp_path f)) \<noteq> None
     then {det (imp_path f)} else {})"
  unfolding gatherStep_eq[OF assms]
  by (auto simp: set_defineProperty split: option.splits)

lemma requiredPackages_Nil: "requiredPackages det [] = {}"
  by (simp add: requiredPackages_def)

lemma requiredPackages_Cons:
  "requiredPackages det (f # imps) =
     (if imp_kind f = ''require-call'' \<and> truthy_bool (imp_external f)
      then insert (det (imp_path f)) (requiredPackages det imps)
      else requiredPackages det imps)"
  unfolding requiredPackages_def by auto

lemma gatherLoop_inv:
  "depsInv deps \<Longrightarrow> depsInv (foldl (gatherStep det cli ext) deps imps)"
  by (induction imps arbitrary: deps) (simp_all add: gatherStep_inv)

lemma gatherLoop_map_of:
  "depsInv deps \<Longrightarrow>
   map_of (foldl (gatherStep det cli ext) deps imps) p =
     (if p \<in> fst ` set deps then map_of deps p
      else if p \<in> requiredPackages det imps \<and> p \<notin> set objectPrototypeNames
      then resolveVersion cli ext p
      else None)"
proof (induction imps arbitrary: deps)
  case Nil
  then show ?case by (simp add: requiredPackages_Nil map_of_eq_None_iff)
next
  case (Cons f imps)
  have inv': "depsInv (gatherStep det cli ext deps f)"
    using Cons.prems by (rule gatherStep_inv)
  have none: "p \<notin> fst ` set deps \<Longrightarrow> map_of deps p = None"
    by (simp add: map_of_eq_None_iff)
  show ?case
    unfolding foldl_Cons Cons.IH[OF inv'] gatherStep_map_of[OF Cons.prems]
      gatherStep_keys[OF Cons.prems] requiredPackages_Cons
    by (auto simp: none)
qed

text \<open>
  The value \<open>gatherRequiredDependencies\<close> holds for a package name: for the name of an
  external require-call import that \<open>Object.prototype\<close> does not have, the version from
  the project's own package.json dependencies when that is a non-empty string, otherwise
  the version from the CLI's own package.json dependencies when that is one, otherwise
  nothing; for any other name, nothing. No package name occurs twice in the result.
\<close>

lemma gatherRequiredDependencies_resolution:
  "distinct (map fst (gatherRequiredDependencies det cli imports externalPackageJson)) \<and>
   map_of (gatherRequiredDependencies det cli imports externalPackageJson) p =
     (let project = (case externalPackageJson of None \<Rightarrow> Map.empty | Some d \<Rightarrow> d) in
      if p \<in> requiredPackages det imports \<and> p \<notin> set objectPrototypeNames then
        (if truthy (project p) then project p
         else if truthy (cli p) then cli p
         else None)
      else None)"
proof -
  have inv0: "depsInv []" by (simp add: depsInv_def)
  have "depsInv (gatherRequiredDependencies det cli imports externalPackageJson)"
    unfolding gatherRequiredDependencies_def by (rule gatherLoop_inv[OF inv0])
  then have "distinct (map fst (gatherRequiredDependencies det cli imports externalPackageJson))"
    by (simp add: depsInv_def)
  then show ?thesis
    unfolding gatherRequiredDependencies_def gatherLoop_map_of[OF inv0]
    by (simp add: resolveVersion_def Let_def)
qed

text \<open>
  Claim C8, at an input where the code departs from it. The bundle requires the external
  package \<open>constructor\<close> and the project's package.json declares it with version
  \<open>1.0.0\<close>, but \<open>dependencies["constructor"]\<close> on the empty object is the inherited
  \<open>Object\<close> function, which is truthy: the loop takes the package for resolved already and
  the result has no entry for it. A package with any other name, here \<open>zod\<close>, is pinned
  from the same declaration.
\<close>

theorem gatherRequiredDependencies_inherited_name:
  "gatherRequiredDependencies (\<lambda>path. path) Map.empty
     [\<lparr>imp_path = ''constructor'', imp_kind = ''require-call'', imp_external = Some True\<rparr>]
     (Some [''constructor'' \<mapsto> ''1.0.0'']) = [] \<and>
   gatherRequiredDependencies (\<lambda>path. path) Map.empty
     [\<lparr>imp_path = ''zod'', imp_kind = ''require-call'', imp_external = Some True\<rparr>]
     (Some [''zod'' \<mapsto> ''1.0.0'']) = [(''zod'', ''1.0.0'')]"
  by (simp add: gatherRequiredDependencies_def gatherStep_def getProperty_def
      objectPrototypeNames_def arrayIndex_def isDigit_def)

lemma gatherRequiredDependencies_example:
  "gatherRequiredDependencies (\<lambda>p. p) [''execa'' \<mapsto> ''8.0.1'', ''zod'' \<mapsto> ''3.0.0'']
     exampleImports (Some [''zod'' \<mapsto> ''3.22.3'']) =
     [(''zod'', ''3.22.3''), (''execa'', ''8.0.1'')]"
  by (simp add: gatherRequiredDependencies_def gatherStep_def exampleImports_def getProperty_def
      objectPrototypeNames_def arrayIndex_def isDigit_def)

lemma mset_insort_by: "mset (insort_by c x ys) = add_mset x (mset ys)"
  by (induction ys) auto

lemma mset_sort_by: "mset (sort_by c xs) = mset xs"
  unfolding sort_by_def by (induction xs) (auto simp: mset_insort_by)

lemma set_insort_by: "set (insort_by c x ys) = insert x (set ys)"
  by (induction ys) auto

lemma set_sort_by: "set (sort_by c xs) = set xs"
  unfolding sort_by_def by (induction xs) (auto simp: set_insort_by)

lemma sorted_insort_by:
  assumes "orderedOn A c" "x \<in> A" "set ys \<subseteq> A" "sorted_wrt (\<lambda>p q. c p q \<le> 0) ys"
  shows "sorted_wrt (\<lambda>p q. c p q \<le> 0) (insort_by c x ys)"
  using assms(3,4)
proof (induction ys)
  case Nil
  then show ?case by simp
next
  case (Cons y ys)
  show ?case
  proof (cases "c x y \<le> 0")
    case True
    have "c x z \<le> 0" if "z \<in> set ys" for z
    proof -
      have "c y z \<le> 0" using Cons.prems(2) that by auto
      moreover have "y \<in> A" "z \<in> A" using Cons.prems(1) that by auto
      ultimately show ?thesis using True assms(1,2) unfolding orderedOn_def by blast
    qed
    with True Cons.prems show ?thesis by auto
  next
    case False
    have "c y x \<le> 0"
      using False assms(1,2) Cons.prems(1) unfolding orderedOn_def by auto
    with False Cons show ?thesis by (auto simp: set_insort_by)
  qed
qed

lemma sorted_sort_by:
  assumes "orderedOn A c" "set xs \<subseteq> A"
  shows "sorted_wrt (\<lambda>p q. c p q \<le> 0) (sort_by c xs)"
  using assms(2)
proof (induction xs)
  case Nil
  then show ?case by (simp add: sort_by_def)
next
  case (Cons x xs)
  have "sorted_wrt (\<lambda>p q. c p q \<le> 0) (insort_by c x (sort_by c xs))"
    using assms(1) Cons by (intro sorted_insort_by[where A = A]) (auto simp: set_sort_by)
  then show ?case by (simp add: sort_by_def)
qed

lemma sorted_unique:
  assumes "sorted_wrt R xs" "sorted_wrt R ys" "mset xs = mset ys"
    and anti: "\<And>p q. p \<in> set xs \<Longrightarrow> q \<in> set xs \<Longrightarrow> R p q \<Longrightarrow> R q p \<Longrightarrow> p = q"
  shows "xs = ys"
  using assms
proof (induction xs arbitrary: ys)
  case Nil
  then show ?case by simp
next
  case (Cons x xs)
  then obtain y ys' where ys: "ys = y # ys'" by (cases ys) auto
  have sets: "set (x # xs) = set ys" using Cons.prems(3) by (metis set_mset_mset)
  have "x = y"
  proof (rule ccontr)
    assume ne: "x \<noteq> y"
    have "x \<in> set ys'" using sets ne ys by auto
    then have 1: "R y x" using Cons.prems(2) ys by auto
    have "y \<in> set xs" using sets ne ys by auto
    then have 2: "R x y" using Cons.prems(1) by auto
    have "y \<in> set (x # xs)" using sets ys by auto
    with 1 2 Cons.prems(4)[of x y] ne show False by auto
  qed
  moreover have "xs = ys'"
  proof (rule Cons.IH)
    show "sorted_wrt R xs" using Cons.prems(1) by simp
    show "sorted_wrt R ys'" using Cons.prems(2) ys by simp
    show "mset xs = mset ys'" using Cons.prems(3) ys \<open>x = y\<close> by simp
    show "\<And>p q. p \<in> set xs \<Longrightarrow> q \<in> set xs \<Longrightarrow> R p q \<Longrightarrow> R q p \<Longrightarrow> p = q"
      using Cons.prems(4) by auto
  qed
  ultimately show ?case using ys by simp
qed

lemma orderedOn_keys:
  fixes c :: "string \<Rightarrow> string \<Rightarrow> int"
  assumes ord: "strictTotalOn (fst ` set xs) c"
    and dist: "distinct (map fst xs)"
  shows "orderedOn (set xs) (\<lambda>(a, _) (b, _). c a b)"
proof -
  let ?c = "\<lambda>(a, _) (b, _). c a b :: int"
  have key_eq: "p = q" if "p \<in> set xs" "q \<in> set xs" "fst p = fst q" for p q
    using dist that by (metis eq_key_imp_eq_value prod.collapse)
  show ?thesis
    unfolding orderedOn_def
  proof (intro conjI ballI impI)
    fix x y assume "x \<in> set xs" "y \<in> set xs"
    then have kx: "fst x \<in> fst ` set xs" and ky: "fst y \<in> fst ` set xs" by auto
    show "?c x y \<le> 0 \<or> ?c y x \<le> 0"
    proof (cases "fst x = fst y")
      case True
      then have "x = y" using \<open>x \<in> set xs\<close> \<open>y \<in> set xs\<close> key_eq by blast
      moreover have "c (fst x) (fst x) = 0" using ord kx unfolding strictTotalOn_def by blast
      ultimately show ?thesis by (simp add: case_prod_beta)
    next
      case False
      then have "c (fst x) (fst y) < 0 \<longleftrightarrow> 0 < c (fst y) (fst x)"
        using ord kx ky unfolding strictTotalOn_def by blast
      then show ?thesis by (auto simp: case_prod_beta)
    qed
  next
    fix x y z assume "x \<in> set xs" "y \<in> set xs" "z \<in> set xs" "?c x y \<le> 0" "?c y z \<le> 0"
    then have "c (fst x) (fst y) \<le> 0" "c (fst y) (fst z) \<le> 0"
      "fst x \<in> fst ` set xs" "fst y \<in> fst ` set xs" "fst z \<in> fst ` set xs"
      by (auto simp: case_prod_beta)
    then have "c (fst x) (fst z) \<le> 0"
      using ord unfolding strictTotalOn_def by blast
    then show "?c x z \<le> 0" by (simp add: case_prod_beta)
  qed
qed

lemma sorted_by_keys:
  fixes c :: "string \<Rightarrow> string \<Rightarrow> int"
  assumes "strictTotalOn (fst ` set xs) c" "distinct (map fst xs)"
  shows "sorted_wrt (\<lambda>p q. (\<lambda>(a, _) (b, _). c a b) p q \<le> 0) (sort_by (\<lambda>(a, _) (b, _). c a b) xs)"
  by (rule sorted_sort_by[OF orderedOn_keys[OF assms]]) simp

lemma sort_by_permutation:
  fixes c :: "string \<Rightarrow> string \<Rightarrow> int"
  assumes ord: "strictTotalOn (fst ` set xs) c"
    and dist: "distinct (map fst xs)"
    and perm: "mset ys = mset xs"
  shows "sort_by (\<lambda>(a, _) (b, _). c a b) ys = sort_by (\<lambda>(a, _) (b, _). c a b) xs"
proof -
  let ?c = "\<lambda>(a, _) (b, _). c a b :: int"
  let ?R = "\<lambda>p q. ?c p q \<le> 0"
  have sets: "set ys = set xs" using perm by (metis set_mset_mset)
  have key_eq: "p = q" if "p \<in> set xs" "q \<in> set xs" "fst p = fst q" for p q
    using dist that by (metis eq_key_imp_eq_value prod.collapse)
  have oo: "orderedOn (set xs) ?c" by (rule orderedOn_keys[OF ord dist])
  have s1: "sorted_wrt ?R (sort_by ?c xs)" by (rule sorted_sort_by[OF oo]) simp
  have s2: "sorted_wrt ?R (sort_by ?c ys)" by (rule sorted_sort_by[OF oo]) (simp add: sets)
  have m: "mset (sort_by ?c ys) = mset (sort_by ?c xs)" by (simp add: mset_sort_by perm)
  have anti: "p = q" if "p \<in> set (sort_by ?c ys)" "q \<in> set (sort_by ?c ys)" "?R p q" "?R q p" for p q
  proof (rule ccontr)
    assume "p \<noteq> q"
    have pin: "p \<in> set xs" and qin: "q \<in> set xs" using that(1,2) by (simp_all add: set_sort_by sets)
    then have "fst p \<noteq> fst q" using \<open>p \<noteq> q\<close> key_eq by blast
    moreover have "fst p \<in> fst ` set xs" "fst q \<in> fst ` set xs" using pin qin by auto
    ultimately have "c (fst p) (fst q) \<noteq> 0 \<and> (c (fst p) (fst q) < 0 \<longleftrightarrow> 0 < c (fst q) (fst p))"
      using ord unfolding strictTotalOn_def by blast
    with that(3,4) show False by (cases p; cases q) auto
  qed
  show ?thesis by (rule sorted_unique[OF s2 s1 m anti])
qed

lemma sorted_wrt_distinct_strict:
  assumes "sorted_wrt P xs" "distinct xs"
    and "\<And>x y. x \<in> set xs \<Longrightarrow> y \<in> set xs \<Longrightarrow> x \<noteq> y \<Longrightarrow> P x y \<Longrightarrow> Q x y"
  shows "sorted_wrt Q xs"
  using assms by (induction xs) auto

text \<open>
  When \<open>localeCompare\<close> is a total order on the names: the content hash is the digest of
  the entry point's text, the worker's text and the serialisation of the entries in
  ascending order of their names, and every other order of the same entries has the same
  content hash.
\<close>

lemma contentHash_sorted_serialisation:
  assumes "strictTotalOn (fst ` set dependencies) (localeCompare rt)"
    and "distinct (map fst dependencies)"
    and "mset dependencies' = mset dependencies"
  shows "\<exists>sortedEntries.
           mset sortedEntries = mset dependencies \<and>
           sorted_wrt (\<lambda>p q. localeCompare rt (fst p) (fst q) < 0) sortedEntries \<and>
           compileProject_contentHash rt entryPointText workerText dependencies =
             sha256_hex rt (entryPointText @ workerText @
               JSON_stringify rt (Object_fromEntries rt sortedEntries)) \<and>
           compileProject_contentHash rt entryPointText workerText dependencies' =
             compileProject_contentHash rt entryPointText workerText dependencies"
proof -
  let ?c = "\<lambda>(a, _) (b, _). localeCompare rt a b :: int"
  let ?s = "sort_by ?c dependencies"
  have m: "mset ?s = mset dependencies" by (rule mset_sort_by)
  then have sets: "set ?s = set dependencies" by (metis set_mset_mset)
  have "mset (map fst ?s) = mset (map fst dependencies)" using m by (metis mset_map)
  then have dk: "distinct (map fst ?s)"
    using assms(2) by (metis mset_eq_imp_distinct_iff)
  then have d: "distinct ?s" by (simp add: distinct_map)
  have le: "sorted_wrt (\<lambda>p q. ?c p q \<le> 0) ?s"
    by (rule sorted_by_keys[OF assms(1,2)])
  have strict: "sorted_wrt (\<lambda>p q. localeCompare rt (fst p) (fst q) < 0) ?s"
  proof (rule sorted_wrt_distinct_strict[OF le d])
    fix x y assume x: "x \<in> set ?s" and y: "y \<in> set ?s" and ne: "x \<noteq> y" and c: "?c x y \<le> 0"
    have "fst x \<noteq> fst y"
      using x y ne assms(2) sets by (metis eq_key_imp_eq_value prod.collapse)
    moreover have "fst x \<in> fst ` set dependencies" "fst y \<in> fst ` set dependencies"
      using x y sets by auto
    ultimately have "localeCompare rt (fst x) (fst y) \<noteq> 0"
      using assms(1) unfolding strictTotalOn_def by blast
    with c show "localeCompare rt (fst x) (fst y) < 0" by (simp add: case_prod_beta)
  qed
  have h: "compileProject_contentHash rt entryPointText workerText dependencies =
             sha256_hex rt (entryPointText @ workerText @
               JSON_stringify rt (Object_fromEntries rt ?s))"
    by (simp add: compileProject_contentHash_def createHash_def update_def digest_def
        Buffer_from_def Object_entries_def)
  have p: "compileProject_contentHash rt entryPointText workerText dependencies' =
             compileProject_contentHash rt entryPointText workerText dependencies"
    unfolding compileProject_contentHash_def Object_entries_def
    by (simp add: sort_by_permutation[OF assms])
  from m strict h p show ?thesis by blast
qed


lemma contentHash_example:
  "compileProject_contentHash exampleRuntime ''E'' ''W''
     [(''zod'', ''3.22.3''), (''execa'', ''8.0.1'')] = ''EWexeca:8.0.1;zod:3.22.3;'' \<and>
   compileProject_contentHash exampleRuntime ''E'' ''W''
     [(''execa'', ''8.0.1''), (''zod'', ''3.22.3'')] = ''EWexeca:8.0.1;zod:3.22.3;''"
  by (simp add: compileProject_contentHash_def exampleRuntime_def createHash_def update_def
      digest_def Buffer_from_def Object_entries_def sort_by_def)

section \<open>Proofs: background worker registry\<close>

lemma createBackgroundTask_projects [simp]:
  "projects (createBackgroundTask m w env s task) = projects s"
  by (simp add: createBackgroundTask_def generateFriendlyId_def Let_def split: prod.splits)

lemma createBackgroundTask_backgroundWorkers [simp]:
  "backgroundWorkers (createBackgroundTask m w env s task) = backgroundWorkers s"
  by (simp add: createBackgroundTask_def generateFriendlyId_def Let_def split: prod.splits)

lemma createBackgroundTasks_projects [simp]:
  "projects (createBackgroundTasks m ts w env s) = projects s"
  unfolding createBackgroundTasks_def by (induction ts arbitrary: s) simp_all

lemma createBackgroundTasks_backgroundWorkers [simp]:
  "backgroundWorkers (createBackgroundTasks m ts w env s) = backgroundWorkers s"
  unfolding createBackgroundTasks_def by (induction ts arbitrary: s) simp_all

lemma createBackgroundTask_taskQueues:
  "taskQueues (createBackgroundTask m w env s task) = snd (upserted w s task)"
  by (simp add: createBackgroundTask_def generateFriendlyId_def Let_def upserted_def createRow_def
      split: prod.splits)

lemma createBackgroundTask_marqsCalls:
  "marqsCalls (createBackgroundTask m w env s task) =
     marqsCalls s @
       (if truthy_number (tq_concurrencyLimit (fst (upserted w s task))) \<and> m
        then [(env, tq_name (fst (upserted w s task)),
               the (tq_concurrencyLimit (fst (upserted w s task))))]
        else [])"
  by (simp add: createBackgroundTask_def generateFriendlyId_def Let_def upserted_def createRow_def
      split: prod.splits)

lemma find_None_filter: "find P xs = None \<longleftrightarrow> filter P xs = []"
  by (induction xs) auto

lemma find_Some_filter: "find P xs = Some x \<Longrightarrow> \<exists>ys. filter P xs = x # ys"
  by (induction xs) (auto split: if_splits)

lemma filter_map_update:
  assumes "\<And>r. P (g r) = P r"
  shows "filter P (map (\<lambda>r. if P r then g r else r) rows) = map g (filter P rows)"
  using assms by (induction rows) auto

lemma find_map_update:
  assumes "\<And>r. P (g r) = P r"
  shows "find P (map (\<lambda>r. if P r then g r else r) rows) = map_option g (find P rows)"
  using assms by (induction rows) auto

lemma hasKey_applyUpdate [simp]: "hasKey e n (applyUpdate cl rl r) = hasKey e n r"
  by (simp add: hasKey_def applyUpdate_def)

lemma upsert_find:
  assumes "hasKey e n create"
  shows "find (hasKey e n) (snd (taskQueue_upsert e n cl rl create rows)) =
         Some (fst (taskQueue_upsert e n cl rl create rows))"
proof (cases "find (hasKey e n) rows")
  case None
  then have "filter (hasKey e n) rows = []" by (simp add: find_None_filter)
  then have "find (hasKey e n) (rows @ [create]) = Some create"
    using assms by (induction rows) (auto split: if_splits)
  with None show ?thesis by (simp add: taskQueue_upsert_def)
next
  case (Some q)
  then show ?thesis by (simp add: taskQueue_upsert_def find_map_update)
qed

lemma upsert_filter:
  assumes "hasKey e n create" "length (filter (hasKey e n) rows) \<le> 1"
  shows "filter (hasKey e n) (snd (taskQueue_upsert e n cl rl create rows)) =
         [fst (taskQueue_upsert e n cl rl create rows)]"
proof (cases "find (hasKey e n) rows")
  case None
  then have "filter (hasKey e n) rows = []" by (simp add: find_None_filter)
  with None assms(1) show ?thesis by (simp add: taskQueue_upsert_def)
next
  case (Some q)
  then obtain ys where "filter (hasKey e n) rows = q # ys" using find_Some_filter by fastforce
  with assms(2) have "filter (hasKey e n) rows = [q]" by simp
  with Some show ?thesis by (simp add: taskQueue_upsert_def filter_map_update)
qed

lemma upsert_limit:
  "tq_concurrencyLimit (fst (taskQueue_upsert e n (Some l) rl create rows)) =
     (case find (hasKey e n) rows of None \<Rightarrow> tq_concurrencyLimit create | Some q \<Rightarrow> Some l)"
  by (simp add: taskQueue_upsert_def applyUpdate_def split: option.splits)

lemma upsert_name:
  assumes "hasKey e n create"
  shows "tq_name (fst (taskQueue_upsert e n cl rl create rows)) = n"
proof (cases "find (hasKey e n) rows")
  case None
  with assms show ?thesis by (simp add: taskQueue_upsert_def hasKey_def)
next
  case (Some q)
  then have "hasKey e n q" by (metis find_Some_iff)
  with Some show ?thesis by (simp add: taskQueue_upsert_def hasKey_def applyUpdate_def)
qed

lemma hasKey_createRow [simp]:
  "hasKey (worker_runtimeEnvironmentId w) (queueName task) (createRow w s task)"
  by (simp add: hasKey_def createRow_def)

lemma findProject_projects:
  "projects s' = projects s \<Longrightarrow> findProject r e s' = findProject r e s"
  by (simp add: findProject_def)

lemma included_snoc:
  assumes "backgroundWorkers s' = backgroundWorkers s @ [w]"
    "worker_projectId w = project_id p" "worker_runtimeEnvironmentId w = env_id e"
  shows "includedBackgroundWorkers p e s' = [w]"
  using assms by (simp add: includedBackgroundWorkers_def)

lemma call_dedup:
  assumes "findProject projectRef environment s = Some project"
    and "includedBackgroundWorkers project environment s = w # ws"
    and "worker_contentHash w = md_contentHash (body_metadata body)"
  shows "call nextVersion marqs projectRef environment body s = Inr (w, s)"
  using assms by (simp add: call_def Let_def)

text \<open>
  Claim C3. When a call of \<open>call\<close> returns a worker, the same call made again on the
  state it left returns the same worker and leaves that state as it is: no worker, task
  or queue row is written, no id is drawn and \<open>marqs\<close> is not called.
\<close>

theorem registerWorker_idempotent:
  assumes "call nextVersion marqs projectRef environment body s = Inr (w, s')"
  shows "call nextVersion marqs projectRef environment body s' = Inr (w, s')"
proof (cases "findProject projectRef environment s")
  case None
  with assms show ?thesis by (simp add: call_def)
next
  case (Some project)
  let ?latest = "case includedBackgroundWorkers project environment s of [] \<Rightarrow> None | w # _ \<Rightarrow> Some w"
  show ?thesis
  proof (cases "map_option worker_contentHash ?latest = Some (md_contentHash (body_metadata body))")
    case True
    then obtain z zs where inc: "includedBackgroundWorkers project environment s = z # zs"
      and h: "worker_contentHash z = md_contentHash (body_metadata body)"
      by (auto split: list.splits)
    have "call nextVersion marqs projectRef environment body s = Inr (z, s)"
      by (rule call_dedup[OF Some inc h])
    with assms have "w = z" "s' = s" by simp_all
    with assms show ?thesis by simp
  next
    case False
    define s1 where "s1 = snd (generateFriendlyId ''worker'' s)"
    define bw where "bw =
      \<lparr>worker_id = nextId s1,
       worker_friendlyId = fst (generateFriendlyId ''worker'' s),
       worker_version = nextVersion (map_option worker_version ?latest),
       worker_runtimeEnvironmentId = env_id environment,
       worker_projectId = project_id project,
       worker_metadata = body_metadata body,
       worker_contentHash = md_contentHash (body_metadata body),
       worker_cliVersion = md_cliPackageVersion (body_metadata body),
       worker_sdkVersion = md_packageVersion (body_metadata body)\<rparr>"
    define s2 where "s2 = s1\<lparr>backgroundWorkers := backgroundWorkers s1 @ [bw], nextId := Suc (nextId s1)\<rparr>"
    have res: "call nextVersion marqs projectRef environment body s =
        Inr (bw, createBackgroundTasks marqs (md_tasks (body_metadata body)) bw environment s2)"
      using Some False
      by (simp add: call_def Let_def s1_def bw_def s2_def generateFriendlyId_def
          del: map_option_eq_Some)
    with assms have w: "w = bw"
      and s': "s' = createBackgroundTasks marqs (md_tasks (body_metadata body)) bw environment s2"
      by auto
    have pr: "projects s' = projects s"
      by (simp add: s' s2_def s1_def generateFriendlyId_def)
    have bws: "backgroundWorkers s' = backgroundWorkers s @ [w]"
      by (simp add: s' s2_def s1_def generateFriendlyId_def w)
    have fp: "findProject projectRef environment s' = Some project"
      using Some findProject_projects[OF pr] by simp
    have inc: "includedBackgroundWorkers project environment s' = [w]"
      by (rule included_snoc[OF bws]) (simp_all add: w bw_def)
    show ?thesis
      by (rule call_dedup[OF fp inc]) (simp add: w bw_def)
  qed
qed

text \<open>
  Claim C1, amended. A call whose content hash is the content hash of the worker created
  last for the project and environment returns that worker and leaves the state as it is.
  (A worker created earlier than the last one is not looked at.)
\<close>

theorem registerWorker_dedup_latest:
  assumes "findProject projectRef environment s = Some project"
    and "filter (\<lambda>w. worker_projectId w = project_id project \<and>
                     worker_runtimeEnvironmentId w = env_id environment)
           (backgroundWorkers s) = ws @ [latest]"
    and "worker_contentHash latest = md_contentHash (body_metadata body)"
  shows "call nextVersion marqs projectRef environment body s = Inr (latest, s)"
proof -
  have "includedBackgroundWorkers project environment s = [latest]"
    using assms(2) by (simp add: includedBackgroundWorkers_def)
  then show ?thesis by (rule call_dedup[OF assms(1) _ assms(3)])
qed

text \<open>
  Claim C6, amended. For a task that declares no queue name and no concurrency limit,
  when the environment has no queue named \<open>task/<taskId>\<close> yet, a queue of type VIRTUAL
  with that name and no concurrency limit is created and \<open>marqs\<close> is not called. For a task that declares a
  queue with name \<open>n\<close> and concurrency limit \<open>l\<close>, the queue named \<open>n\<close> of the
  environment has limit \<open>l\<close> afterwards, and when \<open>marqs\<close> is defined and \<open>l\<close> is not 0,
  \<open>updateQueueConcurrency\<close> is called with the environment, \<open>n\<close> and \<open>l\<close>.
\<close>

theorem createBackgroundTask_queue:
  "(queue_name_of task = None \<and> queue_concurrencyLimit_of task = None \<and>
    find (hasKey (worker_runtimeEnvironmentId w) (''task/'' @ task_id task)) (taskQueues s) = None \<longrightarrow>
      taskQueues (createBackgroundTask marqs w env s task) =
        taskQueues s @
          [\<lparr>tq_friendlyId = (''queue'', Suc (nextId s)), tq_name = ''task/'' @ task_id task,
            tq_concurrencyLimit = None,
            tq_runtimeEnvironmentId = worker_runtimeEnvironmentId w,
            tq_projectId = worker_projectId w, tq_rateLimit = queue_rateLimit_of task,
            tq_type = VIRTUAL\<rparr>] \<and>
      marqsCalls (createBackgroundTask marqs w env s task) = marqsCalls s) \<and>
   (task_queue task = Some q \<and> queue_name q = Some n \<and> queue_concurrencyLimit q = Some l \<longrightarrow>
      (\<exists>r. find (hasKey (worker_runtimeEnvironmentId w) n)
              (taskQueues (createBackgroundTask marqs w env s task)) = Some r \<and>
            tq_name r = n \<and> tq_concurrencyLimit r = Some l) \<and>
      (marqs \<and> l \<noteq> 0 \<longrightarrow>
         marqsCalls (createBackgroundTask marqs w env s task) = marqsCalls s @ [(env, n, l)]))"
proof (intro conjI impI)
  assume a: "queue_name_of task = None \<and> queue_concurrencyLimit_of task = None \<and>
    find (hasKey (worker_runtimeEnvironmentId w) (''task/'' @ task_id task)) (taskQueues s) = None"
  then have qn: "queueName task = ''task/'' @ task_id task"
    by (simp add: queueName_def)
  have up: "upserted w s task = (createRow w s task, taskQueues s @ [createRow w s task])"
    using a by (simp add: upserted_def taskQueue_upsert_def qn)
  have row: "createRow w s task =
      \<lparr>tq_friendlyId = (''queue'', Suc (nextId s)), tq_name = ''task/'' @ task_id task,
        tq_concurrencyLimit = None,
        tq_runtimeEnvironmentId = worker_runtimeEnvironmentId w,
        tq_projectId = worker_projectId w, tq_rateLimit = queue_rateLimit_of task,
            tq_type = VIRTUAL\<rparr>"
    using a by (simp add: createRow_def qn)
  show "taskQueues (createBackgroundTask marqs w env s task) =
        taskQueues s @
          [\<lparr>tq_friendlyId = (''queue'', Suc (nextId s)), tq_name = ''task/'' @ task_id task,
            tq_concurrencyLimit = None,
            tq_runtimeEnvironmentId = worker_runtimeEnvironmentId w,
            tq_projectId = worker_projectId w, tq_rateLimit = queue_rateLimit_of task,
            tq_type = VIRTUAL\<rparr>]"
    by (simp add: createBackgroundTask_taskQueues up row)
  show "marqsCalls (createBackgroundTask marqs w env s task) = marqsCalls s"
    by (simp add: createBackgroundTask_marqsCalls up row)
next
  assume a: "task_queue task = Some q \<and> queue_name q = Some n \<and> queue_concurrencyLimit q = Some l"
  then have qn: "queueName task = n" and cl: "queue_concurrencyLimit_of task = Some l"
    by (simp_all add: queueName_def queue_name_of_def queue_concurrencyLimit_of_def)
  let ?r = "fst (upserted w s task)"
  have key: "hasKey (worker_runtimeEnvironmentId w) n (createRow w s task)"
    using hasKey_createRow[of w task s] by (simp add: qn)
  have f: "find (hasKey (worker_runtimeEnvironmentId w) n)
            (taskQueues (createBackgroundTask marqs w env s task)) = Some ?r"
    unfolding createBackgroundTask_taskQueues upserted_def qn by (rule upsert_find[OF key])
  have nm: "tq_name ?r = n"
    unfolding upserted_def qn by (rule upsert_name[OF key])
  have lim: "tq_concurrencyLimit ?r = Some l"
    unfolding upserted_def qn cl upsert_limit
    by (simp add: createRow_def cl split: option.splits)
  from f nm lim show "\<exists>r. find (hasKey (worker_runtimeEnvironmentId w) n)
              (taskQueues (createBackgroundTask marqs w env s task)) = Some r \<and>
            tq_name r = n \<and> tq_concurrencyLimit r = Some l" by blast
  assume "marqs \<and> l \<noteq> 0"
  then show "marqsCalls (createBackgroundTask marqs w env s task) = marqsCalls s @ [(env, n, l)]"
    by (simp add: createBackgroundTask_marqsCalls nm lim)
qed

lemma createBackgroundTask_filter:
  assumes "worker_runtimeEnvironmentId w = e" "queueName t = n"
    and "length (filter (hasKey e n) (taskQueues s)) \<le> 1"
  shows "filter (hasKey e n) (taskQueues (createBackgroundTask marqs w env s t)) =
         [fst (upserted w s t)]"
proof -
  have k: "hasKey e n (createRow w s t)"
    using hasKey_createRow[of w t s] assms(1,2) by simp
  have "filter (hasKey e n)
          (snd (taskQueue_upsert e n (queue_concurrencyLimit_of t) (queue_rateLimit_of t)
                  (createRow w s t) (taskQueues s))) =
        [fst (taskQueue_upsert e n (queue_concurrencyLimit_of t) (queue_rateLimit_of t)
                  (createRow w s t) (taskQueues s))]"
    by (rule upsert_filter[OF k assms(3)])
  then show ?thesis
    by (simp add: createBackgroundTask_taskQueues upserted_def assms(1,2))
qed

text \<open>
  Claim C7. When two tasks of workers of the same environment use the same queue name
  and each declares a concurrency limit, then after both are registered the environment
  has exactly one queue row with that name, and its limit is the second task's.
\<close>

theorem queue_upsert_twice:
  assumes "worker_runtimeEnvironmentId w1 = e" "worker_runtimeEnvironmentId w2 = e"
    and "queueName t1 = n" "queueName t2 = n"
    and "queue_concurrencyLimit_of t1 = Some l1" "queue_concurrencyLimit_of t2 = Some l2"
    and "length (filter (hasKey e n) (taskQueues s)) \<le> 1"
  shows "\<exists>r. filter (hasKey e n)
               (taskQueues (createBackgroundTask marqs w2 env2
                  (createBackgroundTask marqs w1 env1 s t1) t2)) = [r] \<and>
             tq_concurrencyLimit r = Some l2"
proof -
  define s1 where "s1 = createBackgroundTask marqs w1 env1 s t1"
  have one: "filter (hasKey e n) (taskQueues s1) = [fst (upserted w1 s t1)]"
    unfolding s1_def by (rule createBackgroundTask_filter[OF assms(1,3,7)])
  then have le: "length (filter (hasKey e n) (taskQueues s1)) \<le> 1" by simp
  have two: "filter (hasKey e n) (taskQueues (createBackgroundTask marqs w2 env2 s1 t2)) =
      [fst (upserted w2 s1 t2)]"
    by (rule createBackgroundTask_filter[OF assms(2,4) le])
  have "find (hasKey e n) (taskQueues s1) \<noteq> None"
    using one by (simp add: find_None_filter)
  then have "tq_concurrencyLimit (fst (upserted w2 s1 t2)) = Some l2"
    unfolding upserted_def assms(2,4,6) upsert_limit by (auto split: option.splits)
  with two show ?thesis unfolding s1_def by blast
qed

lemmas example_defs =
  exampleState_def exampleStateA_def exampleWorker_def exampleEnv_def exampleTask_def
  exampleBody_def exampleNextVersion_def sharedQueue_def

lemmas registry_defs =
  call_def findProject_def includedBackgroundWorkers_def createBackgroundTasks_def
  createBackgroundTask_def generateFriendlyId_def taskQueue_upsert_def applyUpdate_def hasKey_def
  queueName_def queue_name_of_def queue_concurrencyLimit_of_def queue_rateLimit_of_def

lemma call_example_first:
  "call exampleNextVersion True ''proj_ref'' exampleEnv (exampleBody ''A'' None) exampleState =
     Inr (exampleWorker, exampleStateA)"
  by (simp add: registry_defs example_defs Let_def)

theorem registerWorker_idempotent_witness:
  "call exampleNextVersion True ''proj_ref'' exampleEnv (exampleBody ''A'' None) exampleState =
     Inr (exampleWorker, exampleStateA) \<and>
   call exampleNextVersion True ''proj_ref'' exampleEnv (exampleBody ''A'' None) exampleStateA =
     Inr (exampleWorker, exampleStateA)"
  using registerWorker_idempotent[OF call_example_first] call_example_first by simp

theorem registerWorker_dedup_latest_witness:
  "findProject ''proj_ref'' exampleEnv exampleStateA = Some (hd (projects exampleState)) \<and>
   backgroundWorkers exampleStateA = [] @ [exampleWorker] \<and>
   call exampleNextVersion True ''proj_ref'' exampleEnv
     (exampleBody ''A'' (Some (sharedQueue 5))) exampleStateA = Inr (exampleWorker, exampleStateA)"
proof -
  have h1: "findProject ''proj_ref'' exampleEnv exampleStateA = Some (hd (projects exampleState))"
    by (simp add: findProject_def example_defs)
  have h2: "filter (\<lambda>w. worker_projectId w = project_id (hd (projects exampleState)) \<and>
                     worker_runtimeEnvironmentId w = env_id exampleEnv)
           (backgroundWorkers exampleStateA) = [] @ [exampleWorker]"
    by (simp add: example_defs)
  have h3: "worker_contentHash exampleWorker =
      md_contentHash (body_metadata (exampleBody ''A'' (Some (sharedQueue 5))))"
    by (simp add: example_defs)
  show ?thesis
    using registerWorker_dedup_latest[OF h1 h2 h3, of exampleNextVersion True] h1
    by (simp add: exampleStateA_def)
qed

text \<open>
  Claim C1 as stated fails: registering content hashes A, B and A again creates three
  workers, two of them with content hash A, and the third call returns a new version.
\<close>

theorem registerWorker_same_hash_counterexample:
  "map worker_contentHash
     (backgroundWorkers (snd (registerAll
        [exampleBody ''A'' None, exampleBody ''B'' None, exampleBody ''A'' None] exampleState))) =
     [''A'', ''B'', ''A''] \<and>
   map worker_version
     (fst (registerAll
        [exampleBody ''A'' None, exampleBody ''B'' None, exampleBody ''A'' None] exampleState)) =
     [''1'', ''1+'', ''1++'']"
  by (simp add: registry_defs example_defs Let_def)

theorem createBackgroundTask_queue_witness:
  "taskQueues (createBackgroundTask True exampleWorker exampleEnv exampleState (exampleTask None)) =
     [\<lparr>tq_friendlyId = (''queue'', 1), tq_name = ''task/t1'', tq_concurrencyLimit = None,
       tq_runtimeEnvironmentId = ''env1'', tq_projectId = ''p1'', tq_rateLimit = None,
       tq_type = VIRTUAL\<rparr>] \<and>
   marqsCalls (createBackgroundTask True exampleWorker exampleEnv exampleState (exampleTask None)) = [] \<and>
   marqsCalls (createBackgroundTask True exampleWorker exampleEnv exampleStateA
                 (exampleTask (Some (sharedQueue 5)))) = [(exampleEnv, ''shared'', 5)]"
proof -
  have a: "queue_name_of (exampleTask None) = None \<and>
      queue_concurrencyLimit_of (exampleTask None) = None \<and>
      find (hasKey (worker_runtimeEnvironmentId exampleWorker) (''task/'' @ task_id (exampleTask None)))
        (taskQueues exampleState) = None"
    by (simp add: example_defs queue_name_of_def queue_concurrencyLimit_of_def)
  have b: "task_queue (exampleTask (Some (sharedQueue 5))) = Some (sharedQueue 5) \<and>
      queue_name (sharedQueue 5) = Some ''shared'' \<and> queue_concurrencyLimit (sharedQueue 5) = Some 5"
    by (simp add: example_defs)
  have c: "True \<and> (5::int) \<noteq> 0" by simp
  from createBackgroundTask_queue[of "exampleTask None" exampleWorker exampleState True exampleEnv] a
  have 1: "taskQueues (createBackgroundTask True exampleWorker exampleEnv exampleState (exampleTask None)) =
      taskQueues exampleState @
          [\<lparr>tq_friendlyId = (''queue'', Suc (nextId exampleState)),
            tq_name = ''task/'' @ task_id (exampleTask None),
            tq_concurrencyLimit = None,
            tq_runtimeEnvironmentId = worker_runtimeEnvironmentId exampleWorker,
            tq_projectId = worker_projectId exampleWorker,
            tq_rateLimit = queue_rateLimit_of (exampleTask None), tq_type = VIRTUAL\<rparr>]"
    and 2: "marqsCalls (createBackgroundTask True exampleWorker exampleEnv exampleState (exampleTask None)) =
      marqsCalls exampleState"
    by blast+
  from createBackgroundTask_queue[of "exampleTask (Some (sharedQueue 5))" exampleWorker exampleStateA
      True exampleEnv "sharedQueue 5" "''shared''" 5] b c
  have 3: "marqsCalls (createBackgroundTask True exampleWorker exampleEnv exampleStateA
                 (exampleTask (Some (sharedQueue 5)))) =
           marqsCalls exampleStateA @ [(exampleEnv, ''shared'', 5)]"
    by blast
  show ?thesis
    unfolding 1 2 3 by (simp add: example_defs queue_rateLimit_of_def)
qed

text \<open>
  Claim C6 as stated fails: a task that declares a queue with a concurrency limit but no
  name gets a VIRTUAL queue \<open>task/t1\<close> with that limit; when a queue named \<open>task/t1\<close>
  exists already, here a NAMED one with limit 3, a task \<open>t1\<close> without a queue creates
  none and the row stays as it is; and with \<open>marqs\<close> undefined
  \<open>updateQueueConcurrency\<close> is not called for the queue \<open>shared\<close> with limit 5.
\<close>

theorem createBackgroundTask_queue_counterexample:
  "taskQueues (createBackgroundTask True exampleWorker exampleEnv exampleState
      (exampleTask (Some \<lparr>queue_name = None, queue_concurrencyLimit = Some 5,
                          queue_rateLimit = None\<rparr>))) =
     [\<lparr>tq_friendlyId = (''queue'', 1), tq_name = ''task/t1'', tq_concurrencyLimit = Some 5,
       tq_runtimeEnvironmentId = ''env1'', tq_projectId = ''p1'', tq_rateLimit = None,
       tq_type = VIRTUAL\<rparr>] \<and>
   taskQueues (createBackgroundTask True exampleWorker exampleEnv
      (createBackgroundTask True exampleWorker exampleEnv exampleState
         (exampleTask (Some \<lparr>queue_name = Some ''task/t1'', queue_concurrencyLimit = Some 3,
                             queue_rateLimit = None\<rparr>)))
      (exampleTask None)) =
     [\<lparr>tq_friendlyId = (''queue'', 1), tq_name = ''task/t1'', tq_concurrencyLimit = Some 3,
       tq_runtimeEnvironmentId = ''env1'', tq_projectId = ''p1'', tq_rateLimit = None,
       tq_type = NAMED\<rparr>] \<and>
   marqsCalls (createBackgroundTask False exampleWorker exampleEnv exampleStateA
                 (exampleTask (Some (sharedQueue 5)))) = []"
  by (simp add: registry_defs example_defs Let_def)

theorem queue_upsert_twice_witness:
  "length (filter (hasKey ''env1'' ''shared'') (taskQueues exampleState)) \<le> 1 \<and>
   map tq_concurrencyLimit
     (filter (hasKey ''env1'' ''shared'')
        (taskQueues (createBackgroundTask True exampleWorker exampleEnv
           (createBackgroundTask True exampleWorker exampleEnv exampleState
              (exampleTask (Some (sharedQueue 5))))
           (exampleTask (Some (sharedQueue 7)))))) = [Some 7]"
proof -
  have h1: "worker_runtimeEnvironmentId exampleWorker = ''env1''" by (simp add: example_defs)
  have h3: "queueName (exampleTask (Some (sharedQueue 5))) = ''shared''"
    by (simp add: example_defs queueName_def queue_name_of_def)
  have h4: "queueName (exampleTask (Some (sharedQueue 7))) = ''shared''"
    by (simp add: example_defs queueName_def queue_name_of_def)
  have h5: "queue_concurrencyLimit_of (exampleTask (Some (sharedQueue 5))) = Some 5"
    by (simp add: example_defs queue_concurrencyLimit_of_def)
  have h6: "queue_concurrencyLimit_of (exampleTask (Some (sharedQueue 7))) = Some 7"
    by (simp add: example_defs queue_concurrencyLimit_of_def)
  have h7: "length (filter (hasKey ''env1'' ''shared'') (taskQueues exampleState)) \<le> 1"
    by (simp add: example_defs)
  from queue_upsert_twice[OF h1 h1 h3 h4 h5 h6 h7, of True exampleEnv exampleEnv]
  show ?thesis using h7 by auto
qed

section \<open>Proofs: deployment orchestrator\<close>

declare waitLoop.simps [simp del]

lemma waitLoop_never_deployed:
  assumes "neverDeployed client deploymentId"
  shows "fst (waitLoop client deploymentId t start w) = Returned None \<and>
         now (snd (waitLoop client deploymentId t start w)) - start > t * 1000"
  using assms
proof (induction client deploymentId t start w rule: waitLoop.induct)
  case (1 client deploymentId t start w)
  show ?case
  proof (cases "now w - start > t * 1000")
    case True
    then show ?thesis by (simp add: waitLoop.simps[of client deploymentId t start w])
  next
    case False
    obtain d where d: "response (getDeployment client deploymentId (calls w)) = Success d"
      "deployment_status d \<noteq> DEPLOYED"
      using "1.prems" unfolding neverDeployed_def by blast
    have step: "waitLoop client deploymentId t start w =
        waitLoop client deploymentId t start
          (w\<lparr>now := now w + latency (getDeployment client deploymentId (calls w)),
              calls := Suc (calls w),
              now := now w + latency (getDeployment client deploymentId (calls w)) + 1000 +
                     overshoot (getDeployment client deploymentId (calls w))\<rparr>)"
      using False d by (simp add: waitLoop.simps[of client deploymentId t start w] Let_def)
    show ?thesis
      unfolding step
      using "1.IH"[OF False refl refl d(1) d(2) "1.prems"] by (simp add: Let_def)
  qed
qed

lemma waitLoop_ideal:
  assumes "neverDeployed client deploymentId"
    and "\<forall>k. latency (getDeployment client deploymentId k) = 0 \<and>
             overshoot (getDeployment client deploymentId k) = 0"
    and "now w = start + calls w * 1000" "calls w \<le> Suc t"
  shows "snd (waitLoop client deploymentId t start w) =
         \<lparr>now = start + Suc t * 1000, calls = Suc t\<rparr>"
  using assms
proof (induction client deploymentId t start w rule: waitLoop.induct)
  case (1 client deploymentId t start w)
  show ?case
  proof (cases "now w - start > t * 1000")
    case True
    with "1.prems"(3,4) have "calls w = Suc t" by simp
    with True "1.prems"(3,4) show ?thesis
      by (simp add: waitLoop.simps[of client deploymentId t start w])
  next
    case False
    obtain d where d: "response (getDeployment client deploymentId (calls w)) = Success d"
      "deployment_status d \<noteq> DEPLOYED"
      using "1.prems"(1) unfolding neverDeployed_def by blast
    have z: "latency (getDeployment client deploymentId (calls w)) = 0"
      "overshoot (getDeployment client deploymentId (calls w)) = 0"
      using "1.prems"(2) by simp_all
    let ?w' = "w\<lparr>now := now w + latency (getDeployment client deploymentId (calls w)),
              calls := Suc (calls w),
              now := now w + latency (getDeployment client deploymentId (calls w)) + 1000 +
                     overshoot (getDeployment client deploymentId (calls w))\<rparr>"
    have step: "waitLoop client deploymentId t start w = waitLoop client deploymentId t start ?w'"
      using False d by (simp add: waitLoop.simps[of client deploymentId t start w] Let_def)
    have le: "calls w \<le> t" using False "1.prems"(3,4) by simp
    show ?thesis
      unfolding step
      using "1.IH"[OF False refl refl d(1) d(2) "1.prems"(1,2)] "1.prems"(3) le
      by (simp add: z)
  qed
qed

lemma elapsed_mono: "m \<le> n \<Longrightarrow> elapsed client deploymentId m \<le> elapsed client deploymentId n"
  by (induction n) (auto simp: le_Suc_eq)

lemma waitLoop_fail:
  assumes ok: "\<forall>j<n. \<exists>d. response (getDeployment client deploymentId j) = Success d \<and>
                         deployment_status d \<noteq> DEPLOYED"
    and fail: "response (getDeployment client deploymentId n) = Failure e"
    and time: "elapsed client deploymentId n \<le> t * 1000"
    and "m \<le> n"
  shows "waitLoop client deploymentId t start
           \<lparr>now = start + elapsed client deploymentId m, calls = m\<rparr> =
         (Threw e,
          \<lparr>now = start + elapsed client deploymentId n +
                  latency (getDeployment client deploymentId n),
           calls = Suc n\<rparr>)"
  using \<open>m \<le> n\<close>
proof (induction "n - m" arbitrary: m)
  case 0
  then have "m = n" by simp
  then show ?case
    using fail time by (simp add: waitLoop.simps[of client deploymentId t start] Let_def)
next
  case (Suc x)
  then have lt: "m < n" by simp
  then obtain d where d: "response (getDeployment client deploymentId m) = Success d"
      "deployment_status d \<noteq> DEPLOYED"
    using ok by blast
  have "elapsed client deploymentId m \<le> t * 1000"
    using elapsed_mono[of m n client deploymentId] lt time by simp
  then have step: "waitLoop client deploymentId t start
           \<lparr>now = start + elapsed client deploymentId m, calls = m\<rparr> =
        waitLoop client deploymentId t start
           \<lparr>now = start + elapsed client deploymentId (Suc m), calls = Suc m\<rparr>"
    using d by (simp add: waitLoop.simps[of client deploymentId t start
          "\<lparr>now = start + elapsed client deploymentId m, calls = m\<rparr>"] Let_def add.assoc)
  have "x = n - Suc m" "Suc m \<le> n" using Suc.hyps(2) lt by simp_all
  then show ?case unfolding step by (rule Suc.hyps(1))
qed

text \<open>
  Claim C2, amended. With the default timeout of 60 seconds when none is given, and a
  pause of 1000 milliseconds after every poll: when every poll succeeds and none shows
  DEPLOYED (an ERROR status included), \<open>waitForDeploymentToComplete\<close> returns undefined and
  does not throw, and it returns only after more than the timeout has passed; when in
  addition the polls and timers take no extra time, the polls are one second apart and
  there are timeout + 1 of them. An ERROR status is not told apart from a timeout.
\<close>

theorem waitForDeploymentToComplete_incomplete:
  assumes "\<forall>k. \<exists>d. response (getDeployment client deploymentId k) = Success d \<and>
                    deployment_status d \<noteq> DEPLOYED"
  shows "fst (waitForDeploymentToComplete deploymentId client timeoutInSeconds start) =
           Returned None \<and>
         now (snd (waitForDeploymentToComplete deploymentId client timeoutInSeconds start)) - start
           > (case timeoutInSeconds of None \<Rightarrow> 60 | Some t \<Rightarrow> t) * 1000 \<and>
         ((\<forall>k. latency (getDeployment client deploymentId k) = 0 \<and>
               overshoot (getDeployment client deploymentId k) = 0) \<longrightarrow>
          snd (waitForDeploymentToComplete deploymentId client timeoutInSeconds start) =
            \<lparr>now = start + Suc (case timeoutInSeconds of None \<Rightarrow> 60 | Some t \<Rightarrow> t) * 1000,
             calls = Suc (case timeoutInSeconds of None \<Rightarrow> 60 | Some t \<Rightarrow> t)\<rparr>)"
proof -
  have nd: "neverDeployed client deploymentId"
    using assms by (simp add: neverDeployed_def)
  show ?thesis
    unfolding waitForDeploymentToComplete_def
    using waitLoop_never_deployed[OF nd] waitLoop_ideal[OF nd]
    by simp
qed

text \<open>
  Claim C10. When the polls before the \<open>n\<close>-th succeed without showing DEPLOYED, the
  timeout has not passed when the \<open>n\<close>-th poll is made, and that poll fails with error
  \<open>e\<close>, \<open>waitForDeploymentToComplete\<close> throws \<open>e\<close> right after that poll: no further poll
  is made and undefined is not returned.
\<close>

theorem waitForDeploymentToComplete_throws:
  assumes "\<forall>j<n. \<exists>d. response (getDeployment client deploymentId j) = Success d \<and>
                      deployment_status d \<noteq> DEPLOYED"
    and "response (getDeployment client deploymentId n) = Failure e"
    and "elapsed client deploymentId n \<le> (case timeoutInSeconds of None \<Rightarrow> 60 | Some t \<Rightarrow> t) * 1000"
  shows "waitForDeploymentToComplete deploymentId client timeoutInSeconds start =
           (Threw e,
            \<lparr>now = start + elapsed client deploymentId n +
                    latency (getDeployment client deploymentId n),
             calls = Suc n\<rparr>)"
  unfolding waitForDeploymentToComplete_def
  using waitLoop_fail[OF assms, of 0 start] by simp

text \<open>
  Claim C5, amended. When the environment variables have been fetched, the compilation
  refers to no name that \<open>Object.prototype\<close> has, and some variable it refers to is not
  among those fetched, the deploy command stops one spinner with one message that lists
  all the missing names, and exits with code 1: the deployment is not initialised and no
  image is built. The names listed are exactly those referred to and not registered.
\<close>

theorem deployCommand_missing_env_vars:
  assumes "getEnvironmentVariables environmentClient project = Success variables"
    and "set (comp_envVars compilation) \<inter> set objectPrototypeNames = {}"
    and "\<not> set (comp_envVars compilation) \<subseteq> dom variables"
  shows "deployCommand options apiUrl project registryHost co environmentClient compilation start =
           [SpinnerStart ''Checking environment variables'',
            SpinnerStop (''Project missing env vars: '' @
              arrayToSentence (filter (\<lambda>envVar. envVar \<notin> dom variables) (comp_envVars compilation)) @
              ''. Aborting deployment. '' @
              bgBlueBright_terminalLink co ''Manage env vars''
                (apiUrl @ ''/projects/v3/'' @ project @ ''/environment-variables'')),
            Exit 1] \<and>
         set (filter (\<lambda>envVar. envVar \<notin> dom variables) (comp_envVars compilation)) =
           set (comp_envVars compilation) - dom variables"
proof -
  have "getProperty variables envVar = Undefined \<longleftrightarrow> envVar \<notin> dom variables"
    if "envVar \<in> set (comp_envVars compilation)" for envVar
    using that assms(2) by (auto simp: getProperty_def dom_def split: option.splits)
  then have eq: "filter (\<lambda>envVar. getProperty variables envVar = Undefined)
                   (comp_envVars compilation) =
                 filter (\<lambda>envVar. envVar \<notin> dom variables) (comp_envVars compilation)"
    by (intro filter_cong) simp_all
  have "filter (\<lambda>envVar. envVar \<notin> dom variables) (comp_envVars compilation) \<noteq> []"
    using assms(3) by (auto simp: filter_empty_conv)
  then show ?thesis
    using assms(1) by (auto simp: deployCommand_def Let_def eq)
qed

lemma neverDeployed_always:
  "st \<noteq> DEPLOYED \<Longrightarrow> neverDeployed (exampleClient v (always st)) i"
  by (simp add: neverDeployed_def exampleClient_def always_def)

lemma ideal_exampleClient:
  "\<forall>k. latency (getDeployment (exampleClient v r) i k) = 0 \<and>
       overshoot (getDeployment (exampleClient v r) i k) = 0"
  by (simp add: exampleClient_def)

lemma waitFor_always:
  assumes "st \<noteq> DEPLOYED"
  shows "waitForDeploymentToComplete i (exampleClient v (always st)) None 0 =
           (Returned None, \<lparr>now = 61000, calls = 61\<rparr>)"
proof -
  have nd: "neverDeployed (exampleClient v (always st)) i"
    using assms by (rule neverDeployed_always)
  have "fst (waitLoop (exampleClient v (always st)) i 60 0 \<lparr>now = 0, calls = 0\<rparr>) = Returned None"
    using waitLoop_never_deployed[OF nd] by blast
  moreover have "snd (waitLoop (exampleClient v (always st)) i 60 0 \<lparr>now = 0, calls = 0\<rparr>) =
      \<lparr>now = 0 + Suc 60 * 1000, calls = Suc 60\<rparr>"
    by (rule waitLoop_ideal[OF nd ideal_exampleClient]) simp_all
  ultimately show ?thesis
    by (simp add: waitForDeploymentToComplete_def prod_eq_iff)
qed

theorem waitForDeploymentToComplete_incomplete_witness:
  "waitForDeploymentToComplete ''d1'' (exampleClient (Failure ''x'') (always BUILDING)) None 0 =
     (Returned None, \<lparr>now = 61000, calls = 61\<rparr>)"
proof -
  have h: "\<forall>k. \<exists>d. response (getDeployment (exampleClient (Failure ''x'') (always BUILDING)) ''d1'' k) =
                    Success d \<and> deployment_status d \<noteq> DEPLOYED"
    by (simp add: exampleClient_def always_def)
  show ?thesis
    using waitForDeploymentToComplete_incomplete[OF h, of None 0]
      ideal_exampleClient[of "Failure ''x''" "always BUILDING" "''d1''"]
    by (simp add: prod_eq_iff)
qed

text \<open>
  Claim C2 as stated fails: a deployment whose status is ERROR at every poll and one
  whose status stays PENDING give the same result, undefined after 61 polls.
\<close>

theorem waitForDeploymentToComplete_error_counterexample:
  "waitForDeploymentToComplete ''d1'' (exampleClient (Failure ''x'') (always ERROR)) None 0 =
     (Returned None, \<lparr>now = 61000, calls = 61\<rparr>) \<and>
   waitForDeploymentToComplete ''d1'' (exampleClient (Failure ''x'') (always PENDING)) None 0 =
     (Returned None, \<lparr>now = 61000, calls = 61\<rparr>)"
  by (simp add: waitFor_always)

theorem waitForDeploymentToComplete_throws_witness:
  "waitForDeploymentToComplete ''d1'' (exampleClient (Failure ''x'') (failingAt 3 ''boom'')) None 0 =
     (Threw ''boom'', \<lparr>now = 3000, calls = 4\<rparr>)"
proof -
  let ?c = "exampleClient (Failure ''x'') (failingAt 3 ''boom'')"
  have h1: "\<forall>j<3. \<exists>d. response (getDeployment ?c ''d1'' j) = Success d \<and>
                      deployment_status d \<noteq> DEPLOYED"
    by (simp add: exampleClient_def failingAt_def always_def)
  have h2: "response (getDeployment ?c ''d1'' 3) = Failure ''boom''"
    by (simp add: exampleClient_def failingAt_def)
  have el: "elapsed ?c ''d1'' 3 = 3000"
    by (simp add: numeral_3_eq_3 exampleClient_def)
  have h3: "elapsed ?c ''d1'' 3 \<le> (case None of None \<Rightarrow> 60 | Some t \<Rightarrow> t) * 1000"
    by (simp add: el)
  have lat: "latency (getDeployment ?c ''d1'' 3) = 0"
    by (simp add: exampleClient_def)
  show ?thesis
    using waitForDeploymentToComplete_throws[OF h1 h2 h3, of 0]
    by (simp add: el lat)
qed

theorem deployCommand_missing_env_vars_witness:
  "deployCommand exampleOptions ''https://api'' ''proj_1'' ''registry'' exampleCollaborators
     (exampleClient (Success [''FOO'' \<mapsto> ''1'']) (always DEPLOYED)) exampleCompilation 0 =
     [SpinnerStart ''Checking environment variables'',
      SpinnerStop ''Project missing env vars: BAR. Aborting deployment. Manage env vars <https://api/projects/v3/proj_1/environment-variables>'',
      Exit 1] \<and>
   deployCommand exampleOptions ''https://api'' ''proj_1'' ''registry'' exampleCollaborators
     (exampleClient (Success Map.empty) (always DEPLOYED)) exampleCompilation 0 =
     [SpinnerStart ''Checking environment variables'',
      SpinnerStop ''Project missing env vars: FOO and BAR. Aborting deployment. Manage env vars <https://api/projects/v3/proj_1/environment-variables>'',
      Exit 1]"
proof -
  let ?c = "exampleClient (Success [''FOO'' \<mapsto> ''1'']) (always DEPLOYED)"
  let ?d = "exampleClient (Success Map.empty) (always DEPLOYED)"
  have h1: "getEnvironmentVariables ?c ''proj_1'' = Success [''FOO'' \<mapsto> ''1'']"
    by (simp add: exampleClient_def)
  have g1: "getEnvironmentVariables ?d ''proj_1'' = Success Map.empty"
    by (simp add: exampleClient_def)
  have h2: "set (comp_envVars exampleCompilation) \<inter> set objectPrototypeNames = {}"
    by (simp add: exampleCompilation_def objectPrototypeNames_def)
  have h3: "\<not> set (comp_envVars exampleCompilation) \<subseteq> dom [''FOO'' \<mapsto> ''1'']"
    by (simp add: exampleCompilation_def)
  have g3: "\<not> set (comp_envVars exampleCompilation) \<subseteq> dom (Map.empty :: string \<rightharpoonup> string)"
    by (simp add: exampleCompilation_def)
  show ?thesis
    using deployCommand_missing_env_vars[OF h1 h2 h3, of exampleOptions "''https://api''"
        "''registry''" exampleCollaborators 0]
      deployCommand_missing_env_vars[OF g1 h2 g3, of exampleOptions "''https://api''"
        "''registry''" exampleCollaborators 0]
    by (simp add: exampleCompilation_def exampleCollaborators_def)
qed

text \<open>
  Claim C5 as stated fails: when the environment variables cannot be fetched the check is
  skipped, and a compilation that refers to FOO and BAR is deployed whatever is
  registered.
\<close>

theorem deployCommand_skips_check_counterexample:
  "deployCommand exampleOptions ''https://api'' ''proj_1'' ''registry'' exampleCollaborators
     (exampleClient (Failure ''fetch failed'') (always DEPLOYED)) exampleCompilation 0 =
     [SpinnerStart ''Checking environment variables'',
      SpinnerStop ''Failed to fetch environment variables, skipping check'',
      SpinnerStart ''Initializing deployment'', InitializeDeployment ''abc'',
      SpinnerMessage ''Deploying version 20240306.1'',
      BuildAndPushImage ''img:1'',
      SpinnerMessage ''20240306.1 image built, starting indexing process'',
      StartDeploymentIndexing ''d1'' ''registry/img:1'',
      SpinnerStop ''Deployment completed successfully, you can now use this version'']"
  by (simp add: deployCommand_def deployAfterCheck_def waitForDeploymentToComplete_def
      waitLoop.simps exampleClient_def exampleCompilation_def exampleCollaborators_def
      exampleOptions_def always_def Let_def)

text \<open>
  A name that \<open>Object.prototype\<close> has is never reported: a compilation that refers to
  \<open>hasOwnProperty\<close> passes the check though no such variable is registered.
\<close>

lemma deployCommand_inherited_name_example:
  "take 2 (deployCommand exampleOptions ''https://api'' ''proj_1'' ''registry''
     exampleCollaborators (exampleClient (Success Map.empty) (always DEPLOYED))
     (exampleCompilation\<lparr>comp_envVars := [''hasOwnProperty'']\<rparr>) 0) =
     [SpinnerStart ''Checking environment variables'',
      SpinnerStop ''All required environment variables are present'']"
  by (simp add: deployCommand_def exampleClient_def exampleCompilation_def getProperty_def
      objectPrototypeNames_def)

section \<open>Proofs: wire protocol schemas\<close>

lemmas catalogue_defs =
  allMessages_def ProviderToPlatformMessages_def PlatformToProviderMessages_def
  CoordinatorToPlatformMessages_def PlatformToCoordinatorMessages_def
  ClientToSharedQueueMessages_def SharedQueueToClientMessages_def
  ProdWorkerToCoordinatorMessages_def CoordinatorToProdWorkerMessages_def

lemma wellFormed_allMessages: "list_all (\<lambda>(name, m). wellFormed m) allMessages"
  by (simp add: catalogue_defs wellFormed_def successEnvelope_def version_def)

lemma parse_version_tag:
  "parse refs (ZDefault (ZLiteral (JString ''v1'')) (JString ''v1'')) x =
     (if x = JUndefined \<or> x = JString ''v1'' then Some (JString ''v1'') else None)"
  by simp

lemma parse_versioned:
  assumes "versioned s"
  shows "\<exists>shape. s = ZObject (version # shape) \<and>
    (\<forall>refs v out. parse refs s v = Some out \<longleftrightarrow>
       (\<exists>kvs rest. v = JObject kvs \<and>
          (field kvs ''version'' = JUndefined \<or> field kvs ''version'' = JString ''v1'') \<and>
          parse_fields refs shape kvs = Some rest \<and>
          out = JObject ((''version'', JString ''v1'') # rest)))"
proof -
  from assms obtain shape where s: "s = ZObject (version # shape)"
    by (auto elim: versioned.elims)
  have "parse refs s v = Some out \<longleftrightarrow>
       (\<exists>kvs rest. v = JObject kvs \<and>
          (field kvs ''version'' = JUndefined \<or> field kvs ''version'' = JString ''v1'') \<and>
          parse_fields refs shape kvs = Some rest \<and>
          out = JObject ((''version'', JString ''v1'') # rest))" for refs v out
  proof (cases v)
    case (JObject kvs)
    have pf: "parse_fields refs (version # shape) kvs =
        (if field kvs ''version'' = JUndefined \<or> field kvs ''version'' = JString ''v1''
         then map_option ((#) (''version'', JString ''v1'')) (parse_fields refs shape kvs)
         else None)"
      unfolding version_def parse_fields.simps(2) parse_version_tag
      by (simp split: option.splits)
    show ?thesis
      unfolding s JObject parse.simps(11) json.case pf
      by auto
  qed (simp_all add: s)
  with s show ?thesis by blast
qed

lemma envelope_failure:
  assumes "envelope (ZDiscriminatedUnion d options)"
  shows "d = ''success'' \<and>
    (\<forall>opt\<in>set options. discriminates ''success'' (JBoolean False) opt \<longrightarrow>
        opt = ZObject [(''success'', ZLiteral (JBoolean False))]) \<and>
    (\<forall>refs kvs. field kvs ''success'' = JBoolean False \<longrightarrow>
        parse refs (ZDiscriminatedUnion d options) (JObject kvs) =
          Some (JObject [(''success'', JBoolean False)]))"
proof -
  from assms obtain rest where o: "options = ZObject [(''success'', ZLiteral (JBoolean False))] # rest"
    and d: "d = ''success''"
    and r: "list_all (\<lambda>opt. \<not> discriminates ''success'' (JBoolean False) opt) rest"
    by (cases options) auto
  have "\<forall>opt\<in>set options. discriminates ''success'' (JBoolean False) opt \<longrightarrow>
        opt = ZObject [(''success'', ZLiteral (JBoolean False))]"
    using r unfolding o by (auto simp: list_all_iff)
  moreover have "parse refs (ZDiscriminatedUnion d options) (JObject kvs) =
          Some (JObject [(''success'', JBoolean False)])"
    if "field kvs ''success'' = JBoolean False" for refs kvs
    using that by (simp add: o d)
  ultimately show ?thesis using d by blast
qed

text \<open>
  Claim C9. For every message of the catalogues: the message schema is an object schema
  that begins with the version tag, and it accepts exactly the objects whose \<open>version\<close>
  is absent or \<open>"v1"\<close> and whose other keys parse; the parsed message has \<open>version\<close>
  \<open>"v1"\<close> in both cases, so an absent tag is accepted and defaulted and any other tag is
  rejected. A callback that is a discriminated union is one on \<open>success\<close> whose only
  option for \<open>success: false\<close> has no other key, so that an input with
  \<open>success: false\<close> parses to the object with that one key, whatever else it carries.
\<close>

theorem wire_protocol_version_and_envelope:
  assumes "(name, m) \<in> set allMessages"
  shows "(\<exists>shape. message m = ZObject (version # shape) \<and>
            (\<forall>refs v out. parse refs (message m) v = Some out \<longleftrightarrow>
               (\<exists>kvs rest. v = JObject kvs \<and>
                  (field kvs ''version'' = JUndefined \<or> field kvs ''version'' = JString ''v1'') \<and>
                  parse_fields refs shape kvs = Some rest \<and>
                  out = JObject ((''version'', JString ''v1'') # rest)))) \<and>
         (\<forall>d options. callback m = Some (ZDiscriminatedUnion d options) \<longrightarrow>
            d = ''success'' \<and>
            (\<forall>opt\<in>set options. discriminates ''success'' (JBoolean False) opt \<longrightarrow>
               opt = ZObject [(''success'', ZLiteral (JBoolean False))]) \<and>
            (\<forall>refs kvs. field kvs ''success'' = JBoolean False \<longrightarrow>
               parse refs (ZDiscriminatedUnion d options) (JObject kvs) =
                 Some (JObject [(''success'', JBoolean False)])))"
proof -
  have wf: "wellFormed m"
    using wellFormed_allMessages assms by (auto simp: list_all_iff)
  then have v: "versioned (message m)" by (simp add: wellFormed_def)
  have e: "envelope cb" if "callback m = Some cb" for cb
    using wf that by (simp add: wellFormed_def)
  have 2: "d = ''success'' \<and>
            (\<forall>opt\<in>set options. discriminates ''success'' (JBoolean False) opt \<longrightarrow>
               opt = ZObject [(''success'', ZLiteral (JBoolean False))]) \<and>
            (\<forall>refs kvs. field kvs ''success'' = JBoolean False \<longrightarrow>
               parse refs (ZDiscriminatedUnion d options) (JObject kvs) =
                 Some (JObject [(''success'', JBoolean False)]))"
    if c: "callback m = Some (ZDiscriminatedUnion d options)" for d options
    by (rule envelope_failure[OF e[OF c]])
  show ?thesis
    by (rule conjI[OF parse_versioned[OF v]]) (use 2 in blast)
qed

theorem wire_protocol_version_and_envelope_witness:
  "(''READY_FOR_EXECUTION'', exampleMessage) \<in> set allMessages \<and>
   parse (\<lambda>name v. Some v) (message exampleMessage) (JObject [(''attemptId'', JString ''a1'')]) =
     Some (JObject [(''version'', JString ''v1''), (''attemptId'', JString ''a1'')]) \<and>
   parse (\<lambda>name v. Some v) (message exampleMessage)
     (JObject [(''attemptId'', JString ''a1''), (''version'', JString ''v2'')]) = None \<and>
   parse (\<lambda>name v. Some v) (the (callback exampleMessage))
     (JObject [(''success'', JBoolean False), (''payload'', JString ''p'')]) =
     Some (JObject [(''success'', JBoolean False)])"
proof -
  let ?refs = "\<lambda>name v. Some (v :: json)"
  have h: "(''READY_FOR_EXECUTION'', exampleMessage) \<in> set allMessages"
    by (simp add: catalogue_defs exampleMessage_def)
  note t = wire_protocol_version_and_envelope[OF h]
  from t[THEN conjunct1] obtain shape where
    sh: "message exampleMessage = ZObject (version # shape)" and
    iff: "\<And>refs v out. parse refs (message exampleMessage) v = Some out \<longleftrightarrow>
       (\<exists>kvs rest. v = JObject kvs \<and>
          (field kvs ''version'' = JUndefined \<or> field kvs ''version'' = JString ''v1'') \<and>
          parse_fields refs shape kvs = Some rest \<and>
          out = JObject ((''version'', JString ''v1'') # rest))"
    by blast
  from sh have shape: "shape = [(''attemptId'', ZString)]"
    by (simp add: exampleMessage_def)
  have 0: "parse ?refs (message exampleMessage) (JObject [(''attemptId'', JString ''a1'')]) =
     Some (JObject [(''version'', JString ''v1''), (''attemptId'', JString ''a1'')])"
    unfolding iff by (simp add: shape)
  have cb: "callback exampleMessage =
      Some (ZDiscriminatedUnion ''success''
        [ZObject [(''success'', ZLiteral (JBoolean False))],
         ZObject [(''success'', ZLiteral (JBoolean True)),
                  (''payload'', ZRef ''ProdTaskRunExecutionPayload'')]])"
    by (simp add: exampleMessage_def successEnvelope_def)
  have f: "field [(''success'', JBoolean False), (''payload'', JString ''p'')] ''success'' =
      JBoolean False"
    by simp
  note t2 = t[THEN conjunct2, rule_format, OF cb, THEN conjunct2, THEN conjunct2, rule_format, OF f]
  from t2 have 2: "parse ?refs (the (callback exampleMessage))
     (JObject [(''success'', JBoolean False), (''payload'', JString ''p'')]) =
     Some (JObject [(''success'', JBoolean False)])"
    by (simp add: cb)
  have 1: "parse ?refs (message exampleMessage)
     (JObject [(''attemptId'', JString ''a1''), (''version'', JString ''v2'')]) = None"
  proof (cases "parse ?refs (message exampleMessage)
     (JObject [(''attemptId'', JString ''a1''), (''version'', JString ''v2'')])")
    case None
    then show ?thesis .
  next
    case (Some out)
    then obtain kvs where
      "JObject [(''attemptId'', JString ''a1''), (''version'', JString ''v2'')] = JObject kvs"
      "field kvs ''version'' = JUndefined \<or> field kvs ''version'' = JString ''v1''"
      unfolding iff by blast
    then show ?thesis by auto
  qed
  from h 0 1 2 show ?thesis by blast
qed

lemma envelope_success_example:
  "parse (\<lambda>name v. Some v) (the (callback exampleMessage))
     (JObject [(''success'', JBoolean True), (''payload'', JString ''p'')]) =
     Some (JObject [(''success'', JBoolean True), (''payload'', JString ''p'')])"
  by (simp add: exampleMessage_def successEnvelope_def)

lemma version_default_example:
  "parse (\<lambda>name v. Some v) (message exampleMessage) (JObject [(''attemptId'', JString ''a1'')]) =
     Some (JObject [(''version'', JString ''v1''), (''attemptId'', JString ''a1'')])"
  by (simp add: exampleMessage_def version_def)

end
